theory Spec2Isabelle
  imports Main "HOL-Library.Sublist"
begin

section \<open>The note conversion pipeline of \<^verbatim>\<open>internal/convert.go\<close>\<close>

text \<open>
  The Go file converts one Evernote note (\<^verbatim>\<open>enex.Note\<close>) into a Markdown note
  (\<^verbatim>\<open>markdown.Note\<close>). A \<^verbatim>\<open>[]byte\<close> and a Go \<^verbatim>\<open>string\<close> are both modelled as
  \<^typ>\<open>string\<close> (a list of 8-bit characters). A Go \<^verbatim>\<open>error\<close> is a value carrying its
  message, \<^verbatim>\<open>nil\<close> is \<^term>\<open>None\<close>. A Go \<^verbatim>\<open>panic\<close> is the left summand of the result.
\<close>

subsection \<open>Data\<close>

datatype error = Error string

datatype panic = Panic error

text \<open>\<^verbatim>\<open>time.Time\<close>: an instant, counted from the zero value of the Go type.\<close>

type_synonym instant = int

text \<open>\<^verbatim>\<open>enex.Resource\<close>, with the fields this file and the naming policy read.\<close>

record Resource =
  ID :: string
  Mime :: string
  Data :: string
  FileName :: string

record NoteAttributes =
  SourceUrl :: string
  Latitude :: string
  Longitude :: string
  Altitude :: string
  Source :: string

text \<open>\<^verbatim>\<open>enex.Note\<close>\<close>

record Note =
  Title :: string
  Content :: string
  Created :: string
  Updated :: string
  Tags :: "string list"
  Attributes :: NoteAttributes
  Resources :: "Resource list"

text \<open>\<^verbatim>\<open>markdown.ResourceType\<close> and \<^verbatim>\<open>markdown.Resource\<close>\<close>

datatype ResourceType = File | Image

record MdResource =
  Name :: string
  Type :: ResourceType
  RContent :: string

text \<open>\<^verbatim>\<open>markdown.Note\<close>; \<^verbatim>\<open>Media\<close> is a Go map from string to resource.\<close>

record MdNote =
  MdContent :: string
  Media :: "string \<rightharpoonup> MdResource"
  CTime :: instant
  MTime :: instant

text \<open>The \<^verbatim>\<open>Converter\<close> struct; \<^verbatim>\<open>err\<close> is the private sticky error field.\<close>

record Converter =
  TagTemplate :: string
  EnableHighlights :: bool
  EscapeSpecialChars :: bool
  EnableFrontMatter :: bool
  FrontMatterTemplate :: string
  err :: "error option"

text \<open>The record handed to the front matter template (the anonymous struct of
  \<^verbatim>\<open>addFrontMatter\<close>).\<close>

record FrontMatterData =
  fmCTime :: string
  fmMTime :: string
  fmTitle :: string
  fmAttributes :: NoteAttributes
  fmTagList :: string

subsection \<open>What the file calls and does not define\<close>

text \<open>
  Functions of the standard library and of other files that \<^verbatim>\<open>convert.go\<close> calls are
  fields of an environment, so every theorem holds for whatever they compute:
  \<^item> \<open>decoder\<close>: \<^verbatim>\<open>io.ReadAll(decoder(data))\<close>, the decoded bytes or the read error;
  \<^item> \<open>isImage\<close>, \<open>name\<close>: the classification by MIME type and the naming policy
    (base name and extension of a resource);
  \<^item> \<open>md5hex\<close>: \<^verbatim>\<open>fmt.Sprintf("%x", md5.Sum(p))\<close>;
  \<^item> \<open>rewriteHTML\<close>: the chain of tag replacers, given the media index;
  \<^item> \<open>markdownConvert\<close>: \<^verbatim>\<open>markdown.Convert\<close> with its two flags;
  \<^item> \<open>tagList\<close>: the method \<^verbatim>\<open>c.tagList(note, template, separator, wrap)\<close>;
  \<^item> \<open>tagHeader\<close>: the bytes the tag stage puts in front of the content;
  \<^item> \<open>timeParse\<close>, \<open>timeFormat\<close>: \<^verbatim>\<open>time.Parse\<close> and \<^verbatim>\<open>Time.Format\<close> for a layout;
  \<^item> \<open>clock\<close>: the reading of the \<open>n\<close>-th call of \<^verbatim>\<open>time.Now()\<close>;
  \<^item> \<open>tmplParse\<close>, \<open>tmplExecute\<close>: \<^verbatim>\<open>text/template\<close> with the two helper functions
    \<^verbatim>\<open>trim\<close> and \<^verbatim>\<open>quote\<close> installed; a parsed template is represented by a string.
\<close>

record env =
  decoder :: "string \<Rightarrow> error + string"
  isImage :: "string \<Rightarrow> bool"
  name :: "Resource \<Rightarrow> string \<times> string"
  md5hex :: "string \<Rightarrow> string"
  rewriteHTML :: "(string \<rightharpoonup> MdResource) \<Rightarrow> string \<Rightarrow> string"
  markdownConvert :: "string \<Rightarrow> bool \<Rightarrow> bool \<Rightarrow> error + string"
  tagList :: "Converter \<Rightarrow> Note \<Rightarrow> string \<Rightarrow> string \<Rightarrow> bool \<Rightarrow> string"
  tagHeader :: "Converter \<Rightarrow> Note \<Rightarrow> string"
  timeParse :: "string \<Rightarrow> string \<Rightarrow> error + instant"
  timeFormat :: "string \<Rightarrow> instant \<Rightarrow> string"
  clock :: "nat \<Rightarrow> instant"
  tmplParse :: "string \<Rightarrow> error + string"
  tmplExecute :: "string \<Rightarrow> FrontMatterData \<Rightarrow> error + string"

subsection \<open>Decimal rendering: \<^verbatim>\<open>strconv.Itoa\<close> and the verb \<^verbatim>\<open>%d\<close>\<close>

definition digitChar :: "nat \<Rightarrow> char" where
  "digitChar d = char_of (48 + d)"

function digits :: "nat \<Rightarrow> string" where
  "digits n = (if n < 10 then [digitChar n] else digits (n div 10) @ [digitChar (n mod 10)])"
  by pat_completeness auto
termination
  by (relation "measure id") auto

declare digits.simps [simp del]

definition Itoa :: "int \<Rightarrow> string" where
  "Itoa i = (if i < 0 then CHR ''-'' # digits (nat (- i)) else digits (nat i))"

subsection \<open>Resource mapping\<close>

text \<open>Lines 115 to 121: the counting map keyed by name and extension, and the local
  variable \<^verbatim>\<open>name\<close> after the block. A counter is at most the number of attachments of
  the note, so the addition on the 64-bit \<^verbatim>\<open>int\<close> of Go does not wrap and \<^typ>\<open>int\<close> models
  it; the counter of the note and the index are only rendered.\<close>

definition uniqueName ::
  "(string \<rightharpoonup> int) \<Rightarrow> string \<Rightarrow> string \<Rightarrow> (string \<rightharpoonup> int) \<times> string" where
  "uniqueName names nm ext =
     (case names (nm @ ext) of
        Some cnt \<Rightarrow> (names(nm @ ext \<mapsto> cnt + 1), nm @ ''-'' @ Itoa cnt)
      | None \<Rightarrow> (names(nm @ ext \<mapsto> 1), nm))"

text \<open>The state of the loop of \<^verbatim>\<open>mapResources\<close>: the sticky error of the converter, the
  local map \<^verbatim>\<open>names\<close> and the map \<^verbatim>\<open>md.Media\<close>.\<close>

record mapState =
  msErr :: "error option"
  msNames :: "string \<rightharpoonup> int"
  msMedia :: "string \<rightharpoonup> MdResource"

text \<open>The resource built in iteration \<open>i\<close> for the decoded bytes \<open>p\<close> (lines 109 to 113
  and 123 to 127): its name is made of the counter of the note, the index and the
  extension.\<close>

definition mkResource :: "env \<Rightarrow> int \<Rightarrow> nat \<Rightarrow> Resource \<Rightarrow> string \<Rightarrow> MdResource" where
  "mkResource E cntp i r p =
     \<lparr>Name = Itoa cntp @ ''_'' @ Itoa (int i) @ snd (name E r),
      Type = (if isImage E (Mime r) then Image else File),
      RContent = p\<rparr>"

text \<open>One iteration after decoding succeeded (lines 105 to 129): \<^verbatim>\<open>c.err = err\<close> stores
  \<^verbatim>\<open>nil\<close>, the counting map is updated, and the resource is stored under the digest of
  its content, replacing what the map held under that key.\<close>

definition mapBody :: "env \<Rightarrow> int \<Rightarrow> nat \<Rightarrow> Resource \<Rightarrow> string \<Rightarrow> mapState \<Rightarrow> mapState" where
  "mapBody E cntp i r p s =
     (let (nm, ext) = name E r;
          (names', nm') = uniqueName (msNames s) nm ext
      in s\<lparr>msErr := None, msNames := names',
           msMedia := (msMedia s)(md5hex E p \<mapsto> mkResource E cntp i r p)\<rparr>)"

text \<open>The loop \<^verbatim>\<open>for i := range r\<close>, from index \<open>i\<close> on; a decoding error is stored and
  ends the loop.\<close>

fun mapLoop :: "env \<Rightarrow> int \<Rightarrow> nat \<Rightarrow> Resource list \<Rightarrow> mapState \<Rightarrow> mapState" where
  "mapLoop E cntp i [] s = s"
| "mapLoop E cntp i (r # rs) s =
     (case decoder E (Data r) of
        Inl e \<Rightarrow> s\<lparr>msErr := Some e\<rparr>
      | Inr p \<Rightarrow> mapLoop E cntp (Suc i) rs (mapBody E cntp i r p s))"

text \<open>The state in which the loop starts when the converter holds the error \<open>x\<close> and
  the media map is \<open>m\<close>.\<close>

definition mapInit :: "error option \<Rightarrow> (string \<rightharpoonup> MdResource) \<Rightarrow> mapState" where
  "mapInit x m = \<lparr>msErr = x, msNames = Map.empty, msMedia = m\<rparr>"

text \<open>Observations used to state properties of the loop: the decoded contents of all
  attachments (when all decode), the first decoding error in source order, the key of
  an attachment in the counting map, and the value the local variable \<^verbatim>\<open>name\<close> holds at
  line 123 in iteration \<open>j\<close>, which the source computes and does not store.\<close>

fun payloads :: "env \<Rightarrow> Resource list \<Rightarrow> string list option" where
  "payloads E [] = Some []"
| "payloads E (r # rs) =
     (case decoder E (Data r) of
        Inl e \<Rightarrow> None
      | Inr p \<Rightarrow> map_option ((#) p) (payloads E rs))"

fun firstDecodeError :: "env \<Rightarrow> Resource list \<Rightarrow> error option" where
  "firstDecodeError E [] = None"
| "firstDecodeError E (r # rs) =
     (case decoder E (Data r) of
        Inl e \<Rightarrow> Some e
      | Inr p \<Rightarrow> firstDecodeError E rs)"

definition nameKey :: "env \<Rightarrow> Resource \<Rightarrow> string" where
  "nameKey E r = fst (name E r) @ snd (name E r)"

definition displayName :: "env \<Rightarrow> int \<Rightarrow> Resource list \<Rightarrow> nat \<Rightarrow> string" where
  "displayName E cntp rs j =
     snd (uniqueName (msNames (mapLoop E cntp 0 (take j rs) (mapInit None Map.empty)))
            (fst (name E (rs ! j))) (snd (name E (rs ! j))))"

subsection \<open>The pipeline state\<close>

text \<open>What the program can observe of the outside: how often \<^verbatim>\<open>time.Now()\<close> was read, and
  the lines handed to \<^verbatim>\<open>log.Printf\<close>.\<close>

record world =
  ticks :: nat
  logged :: "string list"

text \<open>Every stage is a method of the converter taking the two pointers \<^verbatim>\<open>note\<close> and
  \<^verbatim>\<open>md\<close>; a stage maps the state of the three objects (and of the world) to the new one.\<close>

record run =
  conv :: Converter
  enote :: Note
  md :: MdNote
  wld :: world

abbreviation NL :: char where
  "NL \<equiv> CHR 0x0A"

definition setErr :: "error option \<Rightarrow> run \<Rightarrow> run" where
  "setErr x s = s\<lparr>conv := (conv s)\<lparr>err := x\<rparr>\<rparr>"

definition setContent :: "string \<Rightarrow> run \<Rightarrow> run" where
  "setContent b s = s\<lparr>md := (md s)\<lparr>MdContent := b\<rparr>\<rparr>"

subsection \<open>The stages\<close>

text \<open>\<^verbatim>\<open>mapResources\<close> (lines 100 to 137). It has no guard on \<^verbatim>\<open>c.err\<close>; the loop starts
  with the error the converter holds and a fresh map \<^verbatim>\<open>names\<close>.\<close>

definition mapResources :: "env \<Rightarrow> int \<Rightarrow> run \<Rightarrow> run" where
  "mapResources E cntp s =
     (let st = mapLoop E cntp 0 (Resources (enote s)) (mapInit (err (conv s)) (Media (md s)))
      in s\<lparr>conv := (conv s)\<lparr>err := msErr st\<rparr>, md := (md s)\<lparr>Media := msMedia st\<rparr>\<rparr>)"

text \<open>Modelled from the spec: \<^verbatim>\<open>normalizeHTML\<close> is a method declared in another file of the
  package. Section 4.1 gates every stage on "no prior error"; section 4.3 has the chain
  rewrite the markup of the note, with the media index at hand, and never fail.\<close>

definition normalizeHTML :: "env \<Rightarrow> run \<Rightarrow> run" where
  "normalizeHTML E s =
     (if err (conv s) \<noteq> None then s
      else s\<lparr>enote := (enote s)\<lparr>Content := rewriteHTML E (Media (md s)) (Content (enote s))\<rparr>\<rparr>)"

text \<open>Modelled from the spec: the media resolver \<^verbatim>\<open>NewReplacerMedia(md.Media)\<close> is declared
  in another file of the package. Section 4.3 has it look the content hash of a reference
  up in the index and put the filename of the entry into the markup, falling back to a
  previously known identifier when no resource matches. This is the filename a reference
  with the hash \<open>h\<close> resolves to; a reference to an attachment carries the digest of its
  decoded content.\<close>

definition resolveMedia :: "(string \<rightharpoonup> MdResource) \<Rightarrow> string \<Rightarrow> string \<Rightarrow> string" where
  "resolveMedia m h fallback = (case m h of Some r \<Rightarrow> Name r | None \<Rightarrow> fallback)"

text \<open>\<^verbatim>\<open>toMarkdown\<close> (lines 147 to 158)\<close>

definition toMarkdown :: "env \<Rightarrow> run \<Rightarrow> run" where
  "toMarkdown E s =
     (if err (conv s) \<noteq> None then s
      else (case markdownConvert E (Content (enote s))
                   (EnableHighlights (conv s)) (EscapeSpecialChars (conv s)) of
              Inl e \<Rightarrow> setErr (Some e) s
            | Inr b \<Rightarrow> setContent b (setErr None s)))"

text \<open>Modelled from the spec: \<^verbatim>\<open>prependTags\<close> is a method declared in another file of the
  package. Section 4.1 gates it on "no prior error"; sections 2 and 4.5 have it put the
  rendered tag list in front of the content.\<close>

definition prependTags :: "env \<Rightarrow> run \<Rightarrow> run" where
  "prependTags E s =
     (if err (conv s) \<noteq> None then s
      else setContent (tagHeader E (conv s) (enote s) @ MdContent (md s)) s)"

text \<open>\<^verbatim>\<open>prependTitle\<close> (lines 139 to 145); the verb \<^verbatim>\<open>%s\<close> copies the title as it is.\<close>

definition prependTitle :: "run \<Rightarrow> run" where
  "prependTitle s =
     (if err (conv s) \<noteq> None then s
      else setContent ((''# '' @ Title (enote s) @ [NL, NL]) @ MdContent (md s)) s)"

text \<open>The regular expression \<^verbatim>\<open>\n{3,}\<close> of line 165 with \<^verbatim>\<open>ReplaceAllLiteral\<close>: matches are
  found from the left, do not overlap, and the quantifier is greedy, so each match is a
  whole run of newlines of length three or more; shorter runs are copied.\<close>

function replaceNewlineRuns :: "string \<Rightarrow> string \<Rightarrow> string" where
  "replaceNewlineRuns [] repl = []"
| "replaceNewlineRuns (c # cs) repl =
     (if c = NL
      then (let run = takeWhile (\<lambda>x. x = NL) (c # cs);
                rest = dropWhile (\<lambda>x. x = NL) (c # cs)
            in (if 3 \<le> length run then repl else run) @ replaceNewlineRuns rest repl)
      else c # replaceNewlineRuns cs repl)"
  by pat_completeness auto
termination
  by (relation "measure (\<lambda>(s, r). length s)") (auto simp: less_Suc_eq_le length_dropWhile_le)

declare replaceNewlineRuns.simps [simp del]

text \<open>\<^verbatim>\<open>bytes.TrimRight(s, cutset)\<close> for a cutset of ASCII characters.\<close>

definition TrimRight :: "string \<Rightarrow> string \<Rightarrow> string" where
  "TrimRight s cutset = rev (dropWhile (\<lambda>c. c \<in> set cutset) (rev s))"

text \<open>\<^verbatim>\<open>trimSpaces\<close> (lines 160 to 167)\<close>

definition trimSpaces :: "run \<Rightarrow> run" where
  "trimSpaces s =
     (if err (conv s) \<noteq> None then s
      else (let content = replaceNewlineRuns (MdContent (md s)) [NL, NL]
            in setContent (TrimRight content [NL] @ [NL]) s))"

definition evernoteDateFormat :: string where
  "evernoteDateFormat = ''20060102T150405Z''"

definition dateFrontMatterFormat :: string where
  "dateFrontMatterFormat = ''2006-01-02 15:04:05 -0700''"

text \<open>\<^verbatim>\<open>convertEvernoteDate\<close> (lines 216 to 224): on a parse error one line is logged and
  the clock is read.\<close>

definition convertEvernoteDate :: "env \<Rightarrow> string \<Rightarrow> world \<Rightarrow> instant \<times> world" where
  "convertEvernoteDate E evernoteDate w =
     (case timeParse E evernoteDateFormat evernoteDate of
        Inr converted \<Rightarrow> (converted, w)
      | Inl (Error msg) \<Rightarrow>
          (clock E (ticks w),
           \<lparr>ticks = Suc (ticks w),
            logged = logged w @
              [''[DEBUG] Could not convert time /'' @ evernoteDate @ '': '' @ msg @
               '', using today instead'']\<rparr>))"

text \<open>\<^verbatim>\<open>addDates\<close> (lines 169 to 176)\<close>

definition addDates :: "env \<Rightarrow> run \<Rightarrow> run" where
  "addDates E s =
     (if err (conv s) \<noteq> None then s
      else (let (ct, w1) = convertEvernoteDate E (Created (enote s)) (wld s);
                (mt, w2) = convertEvernoteDate E (Updated (enote s)) w1
            in s\<lparr>md := (md s)\<lparr>CTime := ct, MTime := mt\<rparr>, wld := w2\<rparr>))"

text \<open>The data of lines 181 to 193: the two instants formatted, the title, the attributes
  and the tag list rendered with quotes and commas.\<close>

definition frontMatterData :: "env \<Rightarrow> run \<Rightarrow> FrontMatterData" where
  "frontMatterData E s =
     \<lparr>fmCTime = timeFormat E dateFrontMatterFormat (CTime (md s)),
      fmMTime = timeFormat E dateFrontMatterFormat (MTime (md s)),
      fmTitle = Title (enote s),
      fmAttributes = Attributes (enote s),
      fmTagList = tagList E (conv s) (enote s)
                    ([CHR 0x27] @ ''{{tag}}'' @ [CHR 0x27]) '', '' False\<rparr>"

text \<open>\<^verbatim>\<open>addFrontMatter\<close> (lines 180 to 211). There is no guard on \<^verbatim>\<open>c.err\<close>; both template
  errors end in \<^verbatim>\<open>panic(err)\<close>.\<close>

definition addFrontMatter :: "env \<Rightarrow> run \<Rightarrow> panic + run" where
  "addFrontMatter E s =
     (let data = frontMatterData E s
      in (case tmplParse E (FrontMatterTemplate (conv s)) of
            Inl e \<Rightarrow> Inl (Panic e)
          | Inr tmpl \<Rightarrow>
              (case tmplExecute E tmpl data of
                 Inl e \<Rightarrow> Inl (Panic e)
               | Inr b \<Rightarrow> Inr (setContent (b @ MdContent (md s)) s))))"

subsection \<open>The orchestrator\<close>

text \<open>\<^verbatim>\<open>new(markdown.Note)\<close> with an empty media map; both instants are the zero time.\<close>

definition newNote :: MdNote where
  "newNote = \<lparr>MdContent = [], Media = Map.empty, CTime = 0, MTime = 0\<rparr>"

text \<open>The seven stages that always run, in the order of lines 86 to 92.\<close>

definition stages :: "env \<Rightarrow> int \<Rightarrow> run \<Rightarrow> run" where
  "stages E cnt s =
     addDates E (trimSpaces (prependTitle (prependTags E (toMarkdown E
       (normalizeHTML E (mapResources E cnt s))))))"

text \<open>\<^verbatim>\<open>Convert\<close> (lines 82 to 98), from the state \<open>startRun\<close> in which the three objects
  are when the first stage is called. The caller receives \<^verbatim>\<open>md\<close> and \<^verbatim>\<open>c.err\<close> of the final
  state, unless the front matter stage panicked.\<close>

definition startRun :: "Converter \<Rightarrow> Note \<Rightarrow> world \<Rightarrow> run" where
  "startRun c n w = \<lparr>conv = c, enote = n, md = newNote, wld = w\<rparr>"

definition Convert :: "env \<Rightarrow> Converter \<Rightarrow> Note \<Rightarrow> int \<Rightarrow> world \<Rightarrow> panic + run" where
  "Convert E c n cnt w =
     (let s = stages E cnt (startRun c n w)
      in if EnableFrontMatter (conv s) then addFrontMatter E s else Inr s)"

definition returned :: "run \<Rightarrow> MdNote \<times> error option" where
  "returned s = (md s, err (conv s))"

subsection \<open>Construction\<close>

text \<open>The constant \<^verbatim>\<open>tagToken\<close> is declared in another file of the package; its text is the
  one the error message of line 69 and the template of line 192 spell out.\<close>

definition tagToken :: string where
  "tagToken = ''{{tag}}''"

text \<open>\<^verbatim>\<open>strings.Count\<close>: the number of non-overlapping instances of \<open>substr\<close>, found from
  the left. For an empty \<open>substr\<close> Go answers one more than the number of runes, which
  is the number of bytes for ASCII text.\<close>

function Count :: "string \<Rightarrow> string \<Rightarrow> nat" where
  "Count s substr =
     (if substr = [] then Suc (length s)
      else if length s < length substr then 0
      else if take (length substr) s = substr
           then Suc (Count (drop (length substr) s) substr)
           else Count (tl s) substr)"
  by pat_completeness auto
termination
  by (relation "measure (\<lambda>(s, t). length s)") (auto simp: neq_Nil_conv)

declare Count.simps [simp del]

text \<open>\<^verbatim>\<open>NewConverter\<close> (lines 63 to 79). The constant \<^verbatim>\<open>DefaultTagTemplate\<close> is declared in
  another file of the package and is the first argument here; the constant
  \<^verbatim>\<open>FrontMatterTemplate\<close> of lines 20 to 47 is the second.\<close>

definition NewConverter ::
  "string \<Rightarrow> string \<Rightarrow> string \<Rightarrow> bool \<Rightarrow> bool \<Rightarrow> bool \<Rightarrow> error + Converter" where
  "NewConverter DefaultTagTemplate FrontMatterTemplateConst
       tagTemplate enableFrontMatter enableHighlights escapeSpecialChars =
     (let tagTemplate' = (if tagTemplate = [] then DefaultTagTemplate else tagTemplate)
      in if Count tagTemplate' tagToken \<noteq> 1
         then Inl (Error ''tag format should contain exactly one {{tag}} template variable'')
         else Inr \<lparr>TagTemplate = tagTemplate',
                   EnableHighlights = enableHighlights,
                   EscapeSpecialChars = escapeSpecialChars,
                   EnableFrontMatter = enableFrontMatter,
                   FrontMatterTemplate = FrontMatterTemplateConst,
                   err = None\<rparr>)"

subsection \<open>An example environment\<close>

text \<open>Stand-ins for the called functions, to run the definitions on examples: a payload
  decodes to itself unless it is \<open>!\<close>; the digest of a content is the content; the
  renderer fails on the markup \<open><table>\<close>; a date parses when it has sixteen characters;
  the template \<open>{{\<close> does not parse, every other template renders a title block.\<close>

definition exampleEnv :: env where
  "exampleEnv =
     \<lparr>decoder = (\<lambda>d. if d = ''!'' then Inl (Error ''illegal base64 data at input byte 0'')
                      else Inr d),
      isImage = (\<lambda>m. take 6 m = ''image/''),
      name = (\<lambda>r. (FileName r, CHR ''.'' # drop 6 (Mime r))),
      md5hex = (\<lambda>p. p),
      rewriteHTML = (\<lambda>m h. h),
      markdownConvert = (\<lambda>h hl esc. if h = ''<table>'' then Inl (Error ''unbalanced table'')
                                     else Inr h),
      tagList = (\<lambda>c n t sep wrap. []),
      tagHeader = (\<lambda>c n. []),
      timeParse = (\<lambda>layout v. if length v = 16 then Inr 1
                               else Inl (Error ''cannot parse'')),
      timeFormat = (\<lambda>layout t. Itoa t),
      clock = (\<lambda>n. 1000 + int n),
      tmplParse = (\<lambda>t. if t = ''{{'' then Inl (Error ''unclosed action'') else Inr t),
      tmplExecute = (\<lambda>t d. Inr (''title: '' @ fmTitle d @ [NL]))\<rparr>"

definition exampleConverter :: Converter where
  "exampleConverter =
     \<lparr>TagTemplate = ''#{{tag}}'', EnableHighlights = False, EscapeSpecialChars = False,
      EnableFrontMatter = False, FrontMatterTemplate = ''---'', err = None\<rparr>"

definition exampleNote :: Note where
  "exampleNote =
     \<lparr>Title = ''Hello'', Content = ''World'', Created = ''20180109T173725Z'',
      Updated = ''20180109T173725Z'', Tags = [],
      Attributes = \<lparr>SourceUrl = [], Latitude = [], Longitude = [], Altitude = [],
                    Source = []\<rparr>,
      Resources = []\<rparr>"

definition exampleWorld :: world where
  "exampleWorld = \<lparr>ticks = 0, logged = []\<rparr>"

text \<open>The state in which \<^verbatim>\<open>Convert\<close> starts on the example note.\<close>

definition exampleRun :: run where
  "exampleRun = startRun exampleConverter exampleNote exampleWorld"

text \<open>A content with four newlines inside and three at the end.\<close>

definition exampleBlank :: run where
  "exampleBlank = setContent (''a'' @ [NL, NL, NL, NL] @ ''b'' @ [NL, NL, NL]) exampleRun"

text \<open>Attachments: \<open>resB\<close> and \<open>resVideo\<close> have the content of \<open>resA\<close> under another
  name, the second with another MIME type; \<open>resC\<close> has the name of \<open>resA\<close> and another
  content; \<open>resBad\<close> does not decode.\<close>

definition resA :: Resource where
  "resA = \<lparr>ID = ''a'', Mime = ''image/png'', Data = ''AAAA'', FileName = ''pic''\<rparr>"

definition resB :: Resource where
  "resB = \<lparr>ID = ''b'', Mime = ''image/png'', Data = ''AAAA'', FileName = ''copy''\<rparr>"

definition resC :: Resource where
  "resC = \<lparr>ID = ''c'', Mime = ''image/png'', Data = ''BBBB'', FileName = ''pic''\<rparr>"

definition resVideo :: Resource where
  "resVideo = \<lparr>ID = ''v'', Mime = ''video/mp4'', Data = ''AAAA'', FileName = ''clip''\<rparr>"

definition resBad :: Resource where
  "resBad = \<lparr>ID = ''d'', Mime = ''image/png'', Data = ''!'', FileName = ''bad''\<rparr>"

definition withResources :: "Resource list \<Rightarrow> run \<Rightarrow> run" where
  "withResources rs s = s\<lparr>enote := (enote s)\<lparr>Resources := rs\<rparr>\<rparr>"

text \<open>The same state with other date strings in the note.\<close>

definition withDates :: "string \<Rightarrow> string \<Rightarrow> run \<Rightarrow> run" where
  "withDates a b s = s\<lparr>enote := (enote s)\<lparr>Created := a, Updated := b\<rparr>\<rparr>"

section \<open>The title stage\<close>

text \<open>
  Claim C8. When the title stage runs (the converter holds no error), the new content is
  \<open># \<close>, the title of the note as it is, two newlines, and the previous content; nothing
  else of the state changes.
\<close>

theorem prependTitle_content:
  assumes "err (conv s) = None"
  shows "prependTitle s =
           s\<lparr>md := (md s)\<lparr>MdContent := ''# '' @ Title (enote s) @ [NL, NL] @ MdContent (md s)\<rparr>\<rparr>"
  using assms by (simp add: prependTitle_def setContent_def)

theorem prependTitle_content_witness:
  "err (conv (setContent ''World'' exampleRun)) = None \<and>
   MdContent (md (prependTitle (setContent ''World'' exampleRun))) =
     ''# Hello'' @ [NL, NL] @ ''World''"
proof -
  have h: "err (conv (setContent ''World'' exampleRun)) = None"
    by (simp add: setContent_def exampleRun_def startRun_def exampleConverter_def)
  have "Title (enote (setContent ''World'' exampleRun)) = ''Hello''"
    by (simp add: setContent_def exampleRun_def startRun_def exampleNote_def)
  moreover have "MdContent (md (setContent ''World'' exampleRun)) = ''World''"
    by (simp add: setContent_def)
  ultimately show ?thesis
    using h prependTitle_content [OF h] by simp
qed

section \<open>Whitespace normalisation\<close>

text \<open>The replacement leaves no run of three newlines: a replaced run has length two, a
  copied run length one or two, and what follows a run does not start with a newline.\<close>

lemma replaceNewlineRuns_head:
  "s = [] \<or> hd s \<noteq> NL \<Longrightarrow>
   replaceNewlineRuns s r = [] \<or> hd (replaceNewlineRuns s r) \<noteq> NL"
  by (cases s) (auto simp: replaceNewlineRuns.simps)

lemma short_run_no_triple:
  assumes "x = [NL] \<or> x = [NL, NL]" and "t = [] \<or> hd t \<noteq> NL"
    and "\<not> sublist [NL, NL, NL] t"
  shows "\<not> sublist [NL, NL, NL] (x @ t)"
  using assms by (cases t) (auto simp: sublist_Cons_right)

lemma run_shape:
  "takeWhile (\<lambda>x. x = NL) cs = replicate (length (takeWhile (\<lambda>x. x = NL) cs)) NL"
  by (induction cs) auto

lemma replaced_run:
  assumes "run = takeWhile (\<lambda>x. x = NL) (NL # cs)"
  shows "(if 3 \<le> length run then [NL, NL] else run) = [NL] \<or>
         (if 3 \<le> length run then [NL, NL] else run) = [NL, NL]"
proof -
  let ?k = "length (takeWhile (\<lambda>x. x = NL) cs)"
  have r: "run = NL # replicate ?k NL" using assms run_shape [of cs] by simp
  consider "?k = 0" | "?k = 1" | "2 \<le> ?k" by linarith
  then show ?thesis
  proof cases
    case 1 then show ?thesis using r by simp
  next
    case 2 then show ?thesis using r by simp
  next
    case 3 then show ?thesis using r by simp
  qed
qed

lemma replaceNewlineRuns_no_triple:
  "\<not> sublist [NL, NL, NL] (replaceNewlineRuns s [NL, NL])"
proof (induction s "[NL, NL]" rule: replaceNewlineRuns.induct)
  case 1
  show ?case by (simp add: replaceNewlineRuns.simps)
next
  case (2 c cs)
  show ?case
  proof (cases "c = NL")
    case False
    with 2 show ?thesis
      by (simp add: replaceNewlineRuns.simps sublist_Cons_right)
  next
    case True
    define run where "run = takeWhile (\<lambda>x. x = NL) (c # cs)"
    define rest where "rest = dropWhile (\<lambda>x. x = NL) (c # cs)"
    define x where "x = (if 3 \<le> length run then [NL, NL] else run)"
    have eq: "replaceNewlineRuns (c # cs) [NL, NL] = x @ replaceNewlineRuns rest [NL, NL]"
      unfolding run_def rest_def x_def using True
      by (subst replaceNewlineRuns.simps(2)) (simp add: Let_def)
    have ih: "\<not> sublist [NL, NL, NL] (replaceNewlineRuns rest [NL, NL])"
      using 2(1) [OF True run_def rest_def] .
    have "rest = [] \<or> hd rest \<noteq> NL"
      unfolding rest_def using hd_dropWhile [of "\<lambda>x. x = NL" "c # cs"] by blast
    then have hd: "replaceNewlineRuns rest [NL, NL] = [] \<or> hd (replaceNewlineRuns rest [NL, NL]) \<noteq> NL"
      by (rule replaceNewlineRuns_head)
    have "x = [NL] \<or> x = [NL, NL]"
      unfolding x_def using replaced_run [of run cs] True run_def by simp
    then show ?thesis
      unfolding eq using hd ih by (rule short_run_no_triple)
  qed
qed

lemma TrimRight_prefix: "prefix (TrimRight s cutset) s"
proof -
  have "rev s = takeWhile (\<lambda>c. c \<in> set cutset) (rev s) @ dropWhile (\<lambda>c. c \<in> set cutset) (rev s)"
    by simp
  then have "s = TrimRight s cutset @ rev (takeWhile (\<lambda>c. c \<in> set cutset) (rev s))"
    unfolding TrimRight_def by (metis rev_append rev_rev_ident)
  then show ?thesis by (metis prefixI)
qed

lemma TrimRight_last: "TrimRight s cutset = [] \<or> last (TrimRight s cutset) \<notin> set cutset"
proof (cases "dropWhile (\<lambda>c. c \<in> set cutset) (rev s)")
  case Nil
  then show ?thesis by (simp add: TrimRight_def)
next
  case (Cons a as)
  then have "a \<notin> set cutset"
    using hd_dropWhile [of "\<lambda>c. c \<in> set cutset" "rev s"] by auto
  then show ?thesis using Cons by (simp add: TrimRight_def)
qed

lemma snoc_no_triple:
  assumes "t = [] \<or> last t \<noteq> NL" and "\<not> sublist [NL, NL, NL] t"
  shows "\<not> sublist [NL, NL, NL] (t @ [NL])"
proof
  assume "sublist [NL, NL, NL] (t @ [NL])"
  then have "suffix [NL, NL, NL] (t @ [NL]) \<or> sublist [NL, NL, NL] t"
    by (simp add: sublist_snoc)
  then have "suffix [NL, NL, NL] (t @ [NL])" using assms(2) by blast
  then obtain ps where "t @ [NL] = ps @ [NL, NL, NL]" by (auto simp: suffix_def)
  then have "t = ps @ [NL, NL]" by (metis append_Cons append_Nil append_assoc butlast_snoc butlast_append butlast.simps list.distinct(1))
  then show False using assms(1) by auto
qed

lemma exampleBlank_trimmed:
  "MdContent (md (trimSpaces exampleBlank)) = ''a'' @ [NL, NL] @ ''b'' @ [NL]"
  by code_simp

text \<open>
  Claim C5. When the whitespace stage runs (the converter holds no error), the content it
  leaves contains no three consecutive newlines, ends with a newline and does not end
  with two.
\<close>

theorem trimSpaces_newlines:
  assumes "err (conv s) = None"
  shows "\<not> sublist [NL, NL, NL] (MdContent (md (trimSpaces s))) \<and>
         suffix [NL] (MdContent (md (trimSpaces s))) \<and>
         \<not> suffix [NL, NL] (MdContent (md (trimSpaces s)))"
proof -
  let ?r = "replaceNewlineRuns (MdContent (md s)) [NL, NL]"
  let ?t = "TrimRight ?r [NL]"
  have c: "MdContent (md (trimSpaces s)) = ?t @ [NL]"
    using assms by (simp add: trimSpaces_def setContent_def)
  have l: "?t = [] \<or> last ?t \<noteq> NL"
    using TrimRight_last [of ?r "[NL]"] by simp
  have "\<not> sublist [NL, NL, NL] ?t"
    using replaceNewlineRuns_no_triple [of "MdContent (md s)"] TrimRight_prefix [of ?r "[NL]"]
    by (meson prefix_imp_sublist sublist_order.order_trans)
  with l have 1: "\<not> sublist [NL, NL, NL] (?t @ [NL])" by (rule snoc_no_triple)
  have 2: "suffix [NL] (?t @ [NL])" by (simp add: suffix_def)
  have 3: "\<not> suffix [NL, NL] (?t @ [NL])"
  proof
    assume "suffix [NL, NL] (?t @ [NL])"
    then obtain ps where "?t @ [NL] = ps @ [NL, NL]" by (auto simp: suffix_def)
    then have "?t = ps @ [NL]" by (metis append_Cons append_Nil append_assoc butlast_snoc)
    then show False using l by auto
  qed
  show ?thesis unfolding c using 1 2 3 by blast
qed


theorem trimSpaces_newlines_witness:
  "err (conv exampleBlank) = None \<and>
   \<not> sublist [NL, NL, NL] (MdContent (md (trimSpaces exampleBlank))) \<and>
   suffix [NL] (MdContent (md (trimSpaces exampleBlank))) \<and>
   \<not> suffix [NL, NL] (MdContent (md (trimSpaces exampleBlank)))"
proof -
  have h: "err (conv exampleBlank) = None"
    by (simp add: exampleBlank_def setContent_def exampleRun_def startRun_def exampleConverter_def)
  show ?thesis using h trimSpaces_newlines [OF h] by blast
qed

section \<open>Resource mapping\<close>

subsection \<open>The loop on notes whose attachments all decode\<close>

text \<open>When all attachments decode, \<open>payloads\<close> lists what the decoder returns for each,
  in source order.\<close>

lemma payloads_length: "payloads E rs = Some ps \<Longrightarrow> length ps = length rs"
  by (induction rs arbitrary: ps) (auto split: sum.splits)

lemma payloads_nth:
  "payloads E rs = Some ps \<Longrightarrow> j < length rs \<Longrightarrow> decoder E (Data (rs ! j)) = Inr (ps ! j)"
proof (induction rs arbitrary: ps j)
  case Nil
  then show ?case by simp
next
  case (Cons r rs)
  then show ?case by (cases j) (auto split: sum.splits)
qed

lemma payloads_take:
  "payloads E rs = Some ps \<Longrightarrow> payloads E (take j rs) = Some (take j ps)"
proof (induction rs arbitrary: ps j)
  case Nil
  then show ?case by simp
next
  case (Cons r rs)
  then show ?case by (cases j) (auto split: sum.splits)
qed

text \<open>The error, the index and the counting map after the loop.\<close>

lemma mapBody_media:
  "msMedia (mapBody E cntp i r p s) = (msMedia s)(md5hex E p \<mapsto> mkResource E cntp i r p)"
  by (simp add: mapBody_def split: prod.splits)

lemma mapBody_err: "msErr (mapBody E cntp i r p s) = None"
  by (simp add: mapBody_def split: prod.splits)

lemma mapBody_names:
  "msNames (mapBody E cntp i r p s) =
     fst (uniqueName (msNames s) (fst (name E r)) (snd (name E r)))"
  by (simp add: mapBody_def split: prod.splits)

lemma mapLoop_err:
  "msErr (mapLoop E cntp i rs s) = (if rs = [] then msErr s else firstDecodeError E rs)"
proof (induction rs arbitrary: i s)
  case Nil
  then show ?case by simp
next
  case (Cons r rs)
  then show ?case by (cases rs) (auto split: sum.splits simp: mapBody_err)
qed

lemma firstDecodeError_payloads: "firstDecodeError E rs = None \<longleftrightarrow> payloads E rs \<noteq> None"
  by (induction rs) (auto split: sum.splits)

lemma mapLoop_media_other:
  "payloads E rs = Some ps \<Longrightarrow> k \<notin> md5hex E ` set ps \<Longrightarrow>
   msMedia (mapLoop E cntp i rs s) k = msMedia s k"
proof (induction rs arbitrary: i s ps)
  case Nil
  then show ?case by simp
next
  case (Cons r rs)
  then show ?case by (auto split: sum.splits simp: mapBody_media)
qed

lemma mapLoop_media_last:
  "payloads E rs = Some ps \<Longrightarrow> j < length rs \<Longrightarrow>
   \<forall>l. j < l \<and> l < length rs \<longrightarrow> md5hex E (ps ! l) \<noteq> md5hex E (ps ! j) \<Longrightarrow>
   msMedia (mapLoop E cntp i rs s) (md5hex E (ps ! j)) =
     Some (mkResource E cntp (i + j) (rs ! j) (ps ! j))"
proof (induction rs arbitrary: i s ps j)
  case Nil
  then show ?case by simp
next
  case (Cons r rs)
  from Cons.prems(1) obtain p qs where d: "decoder E (Data r) = Inr p"
    and q: "payloads E rs = Some qs" and ps: "ps = p # qs"
    by (auto split: sum.splits)
  show ?case
  proof (cases j)
    case 0
    have "md5hex E p \<notin> md5hex E ` set qs"
    proof
      assume "md5hex E p \<in> md5hex E ` set qs"
      then obtain l where "l < length qs" "md5hex E (qs ! l) = md5hex E p"
        by (metis imageE in_set_conv_nth)
      then show False
        using Cons.prems(3) 0 ps payloads_length [OF q]
        by (auto dest!: spec [of _ "Suc l"])
    qed
    from mapLoop_media_other [OF q this] show ?thesis
      using d 0 ps by (simp add: mapBody_media)
  next
    case (Suc j')
    have "\<forall>l. j' < l \<and> l < length rs \<longrightarrow> md5hex E (qs ! l) \<noteq> md5hex E (qs ! j')"
    proof (intro allI impI)
      fix l
      assume "j' < l \<and> l < length rs"
      then have "j < Suc l \<and> Suc l < length (r # rs)" using Suc by simp
      with Cons.prems(3) have "md5hex E (ps ! Suc l) \<noteq> md5hex E (ps ! j)" by blast
      then show "md5hex E (qs ! l) \<noteq> md5hex E (qs ! j')" using ps Suc by simp
    qed
    from Cons.IH [OF q _ this, of "Suc i" "mapBody E cntp i r p s"] Cons.prems(2) Suc
    show ?thesis using d ps by simp
  qed
qed

lemma mapLoop_media_from:
  "payloads E rs = Some ps \<Longrightarrow> msMedia (mapLoop E cntp i rs s) k = Some v \<Longrightarrow>
   msMedia s k = Some v \<or>
   (\<exists>j < length rs. k = md5hex E (ps ! j) \<and> v = mkResource E cntp (i + j) (rs ! j) (ps ! j))"
proof (induction rs arbitrary: i s ps)
  case Nil
  then show ?case by simp
next
  case (Cons r rs)
  from Cons.prems(1) obtain p qs where d: "decoder E (Data r) = Inr p"
    and q: "payloads E rs = Some qs" and ps: "ps = p # qs"
    by (auto split: sum.splits)
  from Cons.prems(2) d
  have "msMedia (mapLoop E cntp (Suc i) rs (mapBody E cntp i r p s)) k = Some v" by simp
  from Cons.IH [OF q this]
  consider "msMedia (mapBody E cntp i r p s) k = Some v"
    | j where "j < length rs" "k = md5hex E (qs ! j)"
        "v = mkResource E cntp (Suc i + j) (rs ! j) (qs ! j)"
    by blast
  then show ?case
  proof cases
    case 1
    then show ?thesis
      using ps by (auto simp: mapBody_media split: if_splits intro!: exI [of _ 0])
  next
    case 2
    then show ?thesis using ps by (auto intro!: exI [of _ "Suc j"])
  qed
qed

lemma mapLoop_dom:
  "payloads E rs = Some ps \<Longrightarrow>
   dom (msMedia (mapLoop E cntp i rs s)) = dom (msMedia s) \<union> md5hex E ` set ps"
proof (induction rs arbitrary: i s ps)
  case Nil
  then show ?case by simp
next
  case (Cons r rs)
  from Cons.prems(1) obtain p qs where d: "decoder E (Data r) = Inr p"
    and q: "payloads E rs = Some qs" and ps: "ps = p # qs"
    by (auto split: sum.splits)
  have "dom (msMedia (mapLoop E cntp (Suc i) rs (mapBody E cntp i r p s))) =
          dom (msMedia (mapBody E cntp i r p s)) \<union> md5hex E ` set qs"
    by (rule Cons.IH [OF q])
  then show ?case using d ps by (simp add: mapBody_media)
qed

lemma mapResources_media:
  "Media (md (mapResources E cntp s)) =
     msMedia (mapLoop E cntp 0 (Resources (enote s)) (mapInit (err (conv s)) (Media (md s))))"
  by (simp add: mapResources_def Let_def)

lemma mapResources_err:
  "err (conv (mapResources E cntp s)) =
     msErr (mapLoop E cntp 0 (Resources (enote s)) (mapInit (err (conv s)) (Media (md s))))"
  by (simp add: mapResources_def Let_def)

lemma last_writer:
  assumes "payloads E rs = Some ps" and "j < length rs"
  shows "\<exists>l. j \<le> l \<and> l < length rs \<and> md5hex E (ps ! l) = md5hex E (ps ! j) \<and>
             msMedia (mapLoop E cntp i rs s) (md5hex E (ps ! j)) =
               Some (mkResource E cntp (i + l) (rs ! l) (ps ! l))"
proof -
  let ?S = "{l. l < length rs \<and> md5hex E (ps ! l) = md5hex E (ps ! j)}"
  have fin: "finite ?S" by simp
  have ne: "?S \<noteq> {}" using assms(2) by auto
  define l where "l = Max ?S"
  have lS: "l \<in> ?S" unfolding l_def using fin ne by (rule Max_in)
  have jl: "j \<le> l" unfolding l_def using fin assms(2) by (intro Max_ge) auto
  have "\<forall>l'. l < l' \<and> l' < length rs \<longrightarrow> md5hex E (ps ! l') \<noteq> md5hex E (ps ! l)"
  proof (intro allI impI notI)
    fix l'
    assume a: "l < l' \<and> l' < length rs" and e: "md5hex E (ps ! l') = md5hex E (ps ! l)"
    then have "l' \<in> ?S" using lS by simp
    then have "l' \<le> l" unfolding l_def using fin by (intro Max_ge)
    then show False using a by simp
  qed
  from mapLoop_media_last [OF assms(1) _ this, of cntp i s] lS
  have "msMedia (mapLoop E cntp i rs s) (md5hex E (ps ! l)) =
          Some (mkResource E cntp (i + l) (rs ! l) (ps ! l))" by simp
  then show ?thesis using lS jl by auto
qed

text \<open>The entry under a digest is the one built for the last attachment with that digest.\<close>

lemma last_writer_max:
  assumes "payloads E rs = Some ps" and "j < length rs"
  shows "\<exists>l. j \<le> l \<and> l < length rs \<and> md5hex E (ps ! l) = md5hex E (ps ! j) \<and>
             (\<forall>l'. l < l' \<and> l' < length rs \<longrightarrow> md5hex E (ps ! l') \<noteq> md5hex E (ps ! j)) \<and>
             msMedia (mapLoop E cntp i rs s) (md5hex E (ps ! j)) =
               Some (mkResource E cntp (i + l) (rs ! l) (ps ! l))"
proof -
  let ?S = "{l. l < length rs \<and> md5hex E (ps ! l) = md5hex E (ps ! j)}"
  have fin: "finite ?S" by simp
  have ne: "?S \<noteq> {}" using assms(2) by auto
  define l where "l = Max ?S"
  have lS: "l \<in> ?S" unfolding l_def using fin ne by (rule Max_in)
  have jl: "j \<le> l" unfolding l_def using fin assms(2) by (intro Max_ge) auto
  have mx: "\<forall>l'. l < l' \<and> l' < length rs \<longrightarrow> md5hex E (ps ! l') \<noteq> md5hex E (ps ! j)"
  proof (intro allI impI notI)
    fix l'
    assume a: "l < l' \<and> l' < length rs" and e: "md5hex E (ps ! l') = md5hex E (ps ! j)"
    then have "l' \<in> ?S" by simp
    then have "l' \<le> l" unfolding l_def using fin by (intro Max_ge)
    then show False using a by simp
  qed
  then have "\<forall>l'. l < l' \<and> l' < length rs \<longrightarrow> md5hex E (ps ! l') \<noteq> md5hex E (ps ! l)"
    using lS by simp
  from mapLoop_media_last [OF assms(1) _ this, of cntp i s] lS
  have "msMedia (mapLoop E cntp i rs s) (md5hex E (ps ! l)) =
          Some (mkResource E cntp (i + l) (rs ! l) (ps ! l))" by simp
  then show ?thesis using lS jl mx by auto
qed

text \<open>The stages after the first leave the index as resource mapping built it.\<close>

lemma stages_media: "Media (md (stages E cnt s)) = Media (md (mapResources E cnt s))"
  by (simp add: stages_def normalizeHTML_def toMarkdown_def prependTags_def prependTitle_def
      trimSpaces_def addDates_def setErr_def setContent_def Let_def
      split: sum.splits prod.splits)

lemma duplicate_card:
  assumes "i < j" and "j < length ps" and "ps ! i = ps ! j"
  shows "card (f ` set ps) < length ps"
proof -
  have "i < length ps" "i \<noteq> j" using assms by simp_all
  then have "\<not> distinct ps"
    using assms(2,3) by (metis nth_eq_iff_index_eq)
  then have "card (set ps) \<noteq> length ps" using card_distinct by blast
  then have "card (set ps) < length ps" using card_length [of ps] by simp
  moreover have "card (f ` set ps) \<le> card (set ps)" by (simp add: card_image_le)
  ultimately show ?thesis by simp
qed

lemma uniqueName_fst:
  "fst (uniqueName N nm ext) k =
     (if k = nm @ ext then Some (case N k of None \<Rightarrow> 1 | Some c \<Rightarrow> c + 1) else N k)"
  by (simp add: uniqueName_def split: option.splits)

lemma uniqueName_snd:
  "snd (uniqueName N nm ext) =
     (case N (nm @ ext) of None \<Rightarrow> nm | Some c \<Rightarrow> nm @ ''-'' @ Itoa c)"
  by (simp add: uniqueName_def split: option.splits)

lemma mapLoop_names:
  "payloads E rs = Some ps \<Longrightarrow>
   msNames (mapLoop E cntp i rs s) k =
     (if filter (\<lambda>r. nameKey E r = k) rs = [] then msNames s k
      else Some ((case msNames s k of None \<Rightarrow> 0 | Some c \<Rightarrow> c) +
                 int (length (filter (\<lambda>r. nameKey E r = k) rs))))"
proof (induction rs arbitrary: i s ps)
  case Nil
  then show ?case by simp
next
  case (Cons r rs)
  from Cons.prems(1) obtain p qs where d: "decoder E (Data r) = Inr p"
    and q: "payloads E rs = Some qs"
    by (auto split: sum.splits)
  have b: "msNames (mapBody E cntp i r p s) k =
     (if k = nameKey E r then Some (case msNames s k of None \<Rightarrow> 1 | Some c \<Rightarrow> c + 1)
      else msNames s k)"
    by (simp add: mapBody_names uniqueName_fst nameKey_def)
  show ?case
    using Cons.IH [OF q, of "Suc i" "mapBody E cntp i r p s"] d
    by (auto simp: b split: option.splits)
qed

lemma displayName_eq:
  assumes "payloads E rs = Some ps"
  shows "displayName E cntp rs j =
     (let n = length (filter (\<lambda>r. nameKey E r = nameKey E (rs ! j)) (take j rs))
      in if n = 0 then fst (name E (rs ! j))
         else fst (name E (rs ! j)) @ ''-'' @ Itoa (int n))"
proof -
  have "payloads E (take j rs) = Some (take j ps)" using assms by (rule payloads_take)
  from mapLoop_names [OF this, of cntp 0 "mapInit None Map.empty" "nameKey E (rs ! j)"]
  show ?thesis
    by (simp add: displayName_def uniqueName_snd mapInit_def nameKey_def Let_def)
qed

lemma Itoa_small: "Itoa 0 = ''0''" "Itoa 1 = ''1''" "Itoa 7 = ''7''"
  by code_simp+

text \<open>The loop on a prefix gives the state in which the loop on the whole list enters
  the next iteration.\<close>

lemma mapLoop_split:
  "payloads E (take n rs) \<noteq> None \<Longrightarrow>
   mapLoop E cntp i rs s = mapLoop E cntp (i + n) (drop n rs) (mapLoop E cntp i (take n rs) s)"
proof (induction rs arbitrary: i s n)
  case Nil
  then show ?case by simp
next
  case (Cons r rs)
  show ?case
  proof (cases n)
    case 0
    then show ?thesis by simp
  next
    case (Suc m)
    with Cons.prems obtain p where d: "decoder E (Data r) = Inr p"
      and q: "payloads E (take m rs) \<noteq> None"
      by (auto split: sum.splits)
    from Cons.IH [OF q, of "Suc i" "mapBody E cntp i r p s"] d Suc
    show ?thesis by simp
  qed
qed

lemma first_second_count:
  assumes "i < j" and "j < length rs" and "f (rs ! i) = k"
    and "\<forall>l<j. l \<noteq> i \<longrightarrow> f (rs ! l) \<noteq> k"
  shows "length (filter (\<lambda>r. f r = k) (take i rs)) = 0"
    and "length (filter (\<lambda>r. f r = k) (take j rs)) = 1"
proof -
  have a: "filter (\<lambda>r. f r = k) (take i rs) = []"
  proof -
    have "\<forall>r \<in> set (take i rs). f r \<noteq> k"
    proof
      fix r assume "r \<in> set (take i rs)"
      then obtain l where "l < i" "l < length rs" "r = rs ! l"
        by (auto simp: in_set_conv_nth)
      then show "f r \<noteq> k" using assms(1,4) by auto
    qed
    then show ?thesis by (simp add: filter_empty_conv)
  qed
  then show "length (filter (\<lambda>r. f r = k) (take i rs)) = 0" by simp
  have b: "filter (\<lambda>r. f r = k) (drop (Suc i) (take j rs)) = []"
  proof -
    have "\<forall>r \<in> set (drop (Suc i) (take j rs)). f r \<noteq> k"
    proof
      fix r assume "r \<in> set (drop (Suc i) (take j rs))"
      then obtain l where "l < length (drop (Suc i) (take j rs))"
        "r = drop (Suc i) (take j rs) ! l"
        by (auto simp: in_set_conv_nth)
      then have "Suc i + l < j" "r = rs ! (Suc i + l)" using assms(2) by auto
      then show "f r \<noteq> k" using assms(4) by auto
    qed
    then show ?thesis by (simp add: filter_empty_conv)
  qed
  have "take j rs = take i (take j rs) @ (take j rs ! i) # drop (Suc i) (take j rs)"
    using assms(1,2) by (intro id_take_nth_drop) simp
  then have "take j rs = take i rs @ rs ! i # drop (Suc i) (take j rs)"
    using assms(1) by (simp add: min_def)
  then have "filter (\<lambda>r. f r = k) (take j rs) =
        filter (\<lambda>r. f r = k) (take i rs) @ filter (\<lambda>r. f r = k) [rs ! i]
          @ filter (\<lambda>r. f r = k) (drop (Suc i) (take j rs))"
    by (metis append_Cons append_Nil filter_append)
  then show "length (filter (\<lambda>r. f r = k) (take j rs)) = 1"
    using a b assms(3) by simp
qed

text \<open>The example attachments.\<close>

lemma example_payloads:
  "payloads exampleEnv [resA, resB] = Some [''AAAA'', ''AAAA'']"
  "payloads exampleEnv [resA, resC] = Some [''AAAA'', ''BBBB'']"
  by (simp_all add: exampleEnv_def resA_def resB_def resC_def)

lemma example_resources:
  "Resources (enote (withResources rs exampleRun)) = rs"
  "Media (md (withResources rs exampleRun)) = Map.empty"
  "err (conv (withResources rs exampleRun)) = None"
  by (simp_all add: withResources_def exampleRun_def startRun_def newNote_def exampleConverter_def)

lemma example_names:
  "name exampleEnv resA = (''pic'', ''.png'')"
  "name exampleEnv resB = (''copy'', ''.png'')"
  "name exampleEnv resC = (''pic'', ''.png'')"
  "isImage exampleEnv (Mime resA)" "isImage exampleEnv (Mime resB)"
  "isImage exampleEnv (Mime resC)"
  "md5hex exampleEnv p = p"
  by (simp_all add: exampleEnv_def resA_def resB_def resC_def)

subsection \<open>Stored filenames, duplicates and display names\<close>

text \<open>
  Claim C9. Let all attachments of the note decode. The resource that iteration \<open>i\<close>
  of the loop stores under the digest of its content has the name made of the decimal
  counter of the note, an underscore, the decimal index \<open>i\<close> and the extension from the
  naming policy; the display name does not occur in it. When no later attachment has
  the same digest, this is the entry the index holds when \<^verbatim>\<open>mapResources\<close> returns.
\<close>

theorem stored_filename:
  assumes "payloads E (Resources (enote s)) = Some ps" and "i < length ps"
  shows "msMedia (mapLoop E cntp 0 (take (Suc i) (Resources (enote s)))
                    (mapInit (err (conv s)) (Media (md s)))) (md5hex E (ps ! i)) =
           Some \<lparr>Name = Itoa cntp @ ''_'' @ Itoa (int i) @ snd (name E (Resources (enote s) ! i)),
                 Type = (if isImage E (Mime (Resources (enote s) ! i)) then Image else File),
                 RContent = ps ! i\<rparr> \<and>
         ((\<forall>l. i < l \<and> l < length ps \<longrightarrow> md5hex E (ps ! l) \<noteq> md5hex E (ps ! i)) \<longrightarrow>
          Media (md (mapResources E cntp s)) (md5hex E (ps ! i)) =
            Some \<lparr>Name = Itoa cntp @ ''_'' @ Itoa (int i) @ snd (name E (Resources (enote s) ! i)),
                  Type = (if isImage E (Mime (Resources (enote s) ! i)) then Image else File),
                  RContent = ps ! i\<rparr>)"
proof -
  let ?rs = "Resources (enote s)"
  let ?s0 = "mapInit (err (conv s)) (Media (md s))"
  have len: "length ps = length ?rs" using assms(1) by (rule payloads_length)
  have t: "payloads E (take (Suc i) ?rs) = Some (take (Suc i) ps)"
    using assms(1) by (rule payloads_take)
  have "msMedia (mapLoop E cntp 0 (take (Suc i) ?rs) ?s0) (md5hex E (take (Suc i) ps ! i)) =
          Some (mkResource E cntp (0 + i) (take (Suc i) ?rs ! i) (take (Suc i) ps ! i))"
    using assms(2) len by (intro mapLoop_media_last [OF t]) auto
  then have 1: "msMedia (mapLoop E cntp 0 (take (Suc i) ?rs) ?s0) (md5hex E (ps ! i)) =
          Some (mkResource E cntp i (?rs ! i) (ps ! i))" by simp
  have 2: "Media (md (mapResources E cntp s)) (md5hex E (ps ! i)) =
          Some (mkResource E cntp i (?rs ! i) (ps ! i))"
    if "\<forall>l. i < l \<and> l < length ps \<longrightarrow> md5hex E (ps ! l) \<noteq> md5hex E (ps ! i)"
    using mapLoop_media_last [OF assms(1), of i cntp 0 ?s0] that assms(2) len
    by (simp add: mapResources_media)
  show ?thesis using 1 2 by (simp add: mkResource_def)
qed

theorem stored_filename_witness:
  "payloads exampleEnv (Resources (enote (withResources [resA, resC] exampleRun))) =
     Some [''AAAA'', ''BBBB''] \<and>
   Media (md (mapResources exampleEnv 7 (withResources [resA, resC] exampleRun))) ''AAAA'' =
     Some \<lparr>Name = ''7_0.png'', Type = Image, RContent = ''AAAA''\<rparr> \<and>
   Media (md (mapResources exampleEnv 7 (withResources [resA, resC] exampleRun))) ''BBBB'' =
     Some \<lparr>Name = ''7_1.png'', Type = Image, RContent = ''BBBB''\<rparr>"
proof -
  let ?s = "withResources [resA, resC] exampleRun"
  have p: "payloads exampleEnv (Resources (enote ?s)) = Some [''AAAA'', ''BBBB'']"
    by (simp only: example_resources example_payloads)
  have l: "\<forall>l. 0 < l \<and> l < length [''AAAA'', ''BBBB''] \<longrightarrow>
             md5hex exampleEnv ([''AAAA'', ''BBBB''] ! l) \<noteq> md5hex exampleEnv ([''AAAA'', ''BBBB''] ! 0)"
    by (auto simp: example_names less_Suc_eq)
  have "Media (md (mapResources exampleEnv 7 ?s)) ''AAAA'' =
          Some \<lparr>Name = ''7_0.png'', Type = Image, RContent = ''AAAA''\<rparr>"
    using stored_filename [OF p, of 0 7] l
    by (simp add: example_names example_resources Itoa_small)
  moreover have "Media (md (mapResources exampleEnv 7 ?s)) ''BBBB'' =
          Some \<lparr>Name = ''7_1.png'', Type = Image, RContent = ''BBBB''\<rparr>"
    using stored_filename [OF p, of 1 7]
    by (simp add: example_names example_resources Itoa_small)
  ultimately show ?thesis using p by simp
qed

text \<open>Two attachments with the same bytes, a PNG image and then an MP4 video: after the
  first iteration the index holds the entry \<open>7_0.png\<close> of the image under the digest;
  when the loop ends the entry under that digest is \<open>7_1.mp4\<close>, a file, and this is what
  a reference to either attachment resolves to, not the filename of the entry that
  existed.\<close>

theorem duplicate_overwrites_existing:
  "payloads exampleEnv [resA, resVideo] = Some [''AAAA'', ''AAAA''] \<and>
   msMedia (mapLoop exampleEnv 7 0 [resA] (mapInit None Map.empty)) ''AAAA'' =
     Some \<lparr>Name = ''7_0.png'', Type = Image, RContent = ''AAAA''\<rparr> \<and>
   Media (md (mapResources exampleEnv 7 (withResources [resA, resVideo] exampleRun))) ''AAAA'' =
     Some \<lparr>Name = ''7_1.mp4'', Type = File, RContent = ''AAAA''\<rparr> \<and>
   resolveMedia (Media (md (mapResources exampleEnv 7 (withResources [resA, resVideo] exampleRun))))
     (md5hex exampleEnv ''AAAA'') ''fallback'' = ''7_1.mp4''"
  by (simp add: resolveMedia_def mapResources_def mapInit_def example_resources exampleEnv_def
      resA_def resVideo_def mapBody_def mkResource_def uniqueName_def Itoa_small)

text \<open>
  Claim C2, amended. Let all attachments decode, the index start empty (as in \<^verbatim>\<open>Convert\<close>)
  and the attachments \<open>i < j\<close> have the same decoded content. Then the index holds one
  entry under the digest of that content, and a reference to either attachment, which
  carries that digest, resolves to the filename of this entry. The entry is not the one
  that existed first: it is the one built for the last attachment \<open>l \<ge> j\<close> with that
  digest, with the name and the type of that attachment. No other key holds a resource
  with that content, the index has fewer entries than the note has attachments, and the
  later stages leave the index as it is. The content of the entry is that of the two
  attachments when no two different contents of the note share a digest.
\<close>

theorem duplicate_content_one_entry:
  assumes "payloads E (Resources (enote s)) = Some ps"
    and "Media (md s) = Map.empty"
    and "i < j" and "j < length ps" and "ps ! i = ps ! j"
  shows "(\<exists>l v. Media (md (mapResources E cntp s)) (md5hex E (ps ! i)) = Some v \<and>
            j \<le> l \<and> l < length ps \<and> md5hex E (ps ! l) = md5hex E (ps ! i) \<and>
            (\<forall>l'. l < l' \<and> l' < length ps \<longrightarrow> md5hex E (ps ! l') \<noteq> md5hex E (ps ! i)) \<and>
            v = \<lparr>Name = Itoa cntp @ ''_'' @ Itoa (int l) @ snd (name E (Resources (enote s) ! l)),
                 Type = (if isImage E (Mime (Resources (enote s) ! l)) then Image else File),
                 RContent = ps ! l\<rparr> \<and>
            (inj_on (md5hex E) (set ps) \<longrightarrow> RContent v = ps ! i) \<and>
            resolveMedia (Media (md (mapResources E cntp s))) (md5hex E (ps ! i)) fb = Name v \<and>
            resolveMedia (Media (md (mapResources E cntp s))) (md5hex E (ps ! j)) fb = Name v) \<and>
         (\<forall>k w. Media (md (mapResources E cntp s)) k = Some w \<and> RContent w = ps ! i
            \<longrightarrow> k = md5hex E (ps ! i)) \<and>
         card (dom (Media (md (mapResources E cntp s)))) < length ps \<and>
         Media (md (stages E cntp s)) = Media (md (mapResources E cntp s))"
proof -
  let ?rs = "Resources (enote s)"
  let ?M = "Media (md (mapResources E cntp s))"
  let ?s0 = "mapInit (err (conv s)) (Media (md s))"
  have len: "length ps = length ?rs" using assms(1) by (rule payloads_length)
  have M: "?M = msMedia (mapLoop E cntp 0 ?rs ?s0)" by (rule mapResources_media)
  have m0: "msMedia ?s0 = Map.empty" using assms(2) by (simp add: mapInit_def)
  have 1: "\<exists>l v. ?M (md5hex E (ps ! i)) = Some v \<and>
            j \<le> l \<and> l < length ps \<and> md5hex E (ps ! l) = md5hex E (ps ! i) \<and>
            (\<forall>l'. l < l' \<and> l' < length ps \<longrightarrow> md5hex E (ps ! l') \<noteq> md5hex E (ps ! i)) \<and>
            v = \<lparr>Name = Itoa cntp @ ''_'' @ Itoa (int l) @ snd (name E (?rs ! l)),
                 Type = (if isImage E (Mime (?rs ! l)) then Image else File),
                 RContent = ps ! l\<rparr> \<and>
            (inj_on (md5hex E) (set ps) \<longrightarrow> RContent v = ps ! i) \<and>
            resolveMedia ?M (md5hex E (ps ! i)) fb = Name v \<and>
            resolveMedia ?M (md5hex E (ps ! j)) fb = Name v"
  proof -
    from last_writer_max [OF assms(1), of j cntp 0 ?s0] assms(4) len
    obtain l where l: "j \<le> l" "l < length ?rs" "md5hex E (ps ! l) = md5hex E (ps ! j)"
      "\<forall>l'. l < l' \<and> l' < length ?rs \<longrightarrow> md5hex E (ps ! l') \<noteq> md5hex E (ps ! j)"
      "?M (md5hex E (ps ! j)) = Some (mkResource E cntp l (?rs ! l) (ps ! l))"
      unfolding M by auto
    define v where "v = mkResource E cntp l (?rs ! l) (ps ! l)"
    have e: "?M (md5hex E (ps ! i)) = Some v" using l(5) assms(5) by (simp add: v_def)
    have "ps ! l \<in> set ps" "ps ! j \<in> set ps" using l(2) assms(4) len by simp_all
    with l(3) have "inj_on (md5hex E) (set ps) \<longrightarrow> ps ! l = ps ! j"
      by (auto dest: inj_onD)
    then have c: "inj_on (md5hex E) (set ps) \<longrightarrow> RContent v = ps ! i"
      using assms(5) by (simp add: v_def mkResource_def)
    have r: "resolveMedia ?M (md5hex E (ps ! i)) fb = Name v"
      "resolveMedia ?M (md5hex E (ps ! j)) fb = Name v"
      using e assms(5) by (simp_all add: resolveMedia_def)
    have "v = \<lparr>Name = Itoa cntp @ ''_'' @ Itoa (int l) @ snd (name E (?rs ! l)),
                Type = (if isImage E (Mime (?rs ! l)) then Image else File),
                RContent = ps ! l\<rparr>"
      by (simp add: v_def mkResource_def)
    with e l(1-4) c r assms(5) len show ?thesis by auto
  qed
  have 2: "\<forall>k w. ?M k = Some w \<and> RContent w = ps ! i \<longrightarrow> k = md5hex E (ps ! i)"
  proof (intro allI impI)
    fix k w
    assume a: "?M k = Some w \<and> RContent w = ps ! i"
    then have "msMedia (mapLoop E cntp 0 ?rs ?s0) k = Some w" unfolding M by simp
    from mapLoop_media_from [OF assms(1) this] m0
    obtain l where "k = md5hex E (ps ! l)" "w = mkResource E cntp (0 + l) (?rs ! l) (ps ! l)"
      by auto
    with a show "k = md5hex E (ps ! i)" by (simp add: mkResource_def)
  qed
  have "dom ?M = md5hex E ` set ps"
    unfolding M using mapLoop_dom [OF assms(1), of cntp 0 ?s0] m0 by simp
  then have 3: "card (dom ?M) < length ps"
    using duplicate_card [OF assms(3,4,5), of "md5hex E"] by simp
  have 4: "Media (md (stages E cntp s)) = ?M" by (rule stages_media)
  show ?thesis using 1 2 3 4 by blast
qed

theorem duplicate_content_one_entry_witness:
  "payloads exampleEnv (Resources (enote (withResources [resA, resB] exampleRun))) =
     Some [''AAAA'', ''AAAA''] \<and>
   Media (md (mapResources exampleEnv 7 (withResources [resA, resB] exampleRun))) ''AAAA'' =
     Some \<lparr>Name = ''7_1.png'', Type = Image, RContent = ''AAAA''\<rparr> \<and>
   resolveMedia (Media (md (mapResources exampleEnv 7 (withResources [resA, resB] exampleRun))))
     ''AAAA'' ''fallback'' = ''7_1.png'' \<and>
   card (dom (Media (md (mapResources exampleEnv 7 (withResources [resA, resB] exampleRun))))) < 2"
proof -
  let ?s = "withResources [resA, resB] exampleRun"
  let ?M = "Media (md (mapResources exampleEnv 7 ?s))"
  have p: "payloads exampleEnv (Resources (enote ?s)) = Some [''AAAA'', ''AAAA'']"
    by (simp only: example_resources example_payloads)
  have m: "Media (md ?s) = Map.empty" by (simp add: example_resources)
  have h: "(0::nat) < 1" "1 < length [''AAAA'', ''AAAA'']"
    "[''AAAA'', ''AAAA''] ! 0 = [''AAAA'', ''AAAA''] ! 1"
    by simp_all
  from duplicate_content_one_entry [OF p m h, of 7 "''fallback''"]
  obtain l v where v: "?M (md5hex exampleEnv ([''AAAA'', ''AAAA''] ! 0)) = Some v"
    "1 \<le> l" "l < length [''AAAA'', ''AAAA'']"
    "v = \<lparr>Name = Itoa 7 @ ''_'' @ Itoa (int l) @ snd (name exampleEnv (Resources (enote ?s) ! l)),
          Type = (if isImage exampleEnv (Mime (Resources (enote ?s) ! l)) then Image else File),
          RContent = [''AAAA'', ''AAAA''] ! l\<rparr>"
    "resolveMedia ?M (md5hex exampleEnv ([''AAAA'', ''AAAA''] ! 0)) ''fallback'' = Name v"
    and d: "card (dom ?M) < length [''AAAA'', ''AAAA'']"
    by blast
  then have "l = 1" by simp
  with v have "?M ''AAAA'' = Some \<lparr>Name = ''7_1.png'', Type = Image, RContent = ''AAAA''\<rparr>"
    and "resolveMedia ?M ''AAAA'' ''fallback'' = ''7_1.png''"
    by (simp_all add: example_names example_resources Itoa_small)
  then show ?thesis using p d by simp
qed

text \<open>
  Claim C3. Let all attachments decode, the index start empty, the attachments \<open>i < j\<close>
  be the first and the second with their base name and extension, and their contents
  differ. Then the display name of the first is the base name and that of the second is
  the base name with the suffix \<open>-1\<close> (the counter read before it is incremented); and
  when no two different contents of the note share a digest, the index holds two entries
  under two different keys, one with each content.
\<close>

theorem same_name_different_content:
  assumes "payloads E (Resources (enote s)) = Some ps"
    and "Media (md s) = Map.empty"
    and "i < j" and "j < length ps"
    and "name E (Resources (enote s) ! i) = (nm, ext)"
    and "name E (Resources (enote s) ! j) = (nm, ext)"
    and "\<forall>l<j. l \<noteq> i \<longrightarrow> nameKey E (Resources (enote s) ! l) \<noteq> nm @ ext"
    and "ps ! i \<noteq> ps ! j"
  shows "displayName E cntp (Resources (enote s)) i = nm \<and>
         displayName E cntp (Resources (enote s)) j = nm @ ''-1'' \<and>
         (inj_on (md5hex E) (set ps) \<longrightarrow>
            md5hex E (ps ! i) \<noteq> md5hex E (ps ! j) \<and>
            (\<exists>v w. Media (md (mapResources E cntp s)) (md5hex E (ps ! i)) = Some v \<and>
                   Media (md (mapResources E cntp s)) (md5hex E (ps ! j)) = Some w \<and>
                   RContent v = ps ! i \<and> RContent w = ps ! j))"
proof -
  let ?rs = "Resources (enote s)"
  let ?s0 = "mapInit (err (conv s)) (Media (md s))"
  let ?M = "Media (md (mapResources E cntp s))"
  have len: "length ps = length ?rs" using assms(1) by (rule payloads_length)
  have ki: "nameKey E (?rs ! i) = nm @ ext" and kj: "nameKey E (?rs ! j) = nm @ ext"
    using assms(5,6) by (simp_all add: nameKey_def)
  from first_second_count [of i j ?rs "nameKey E" "nm @ ext"] assms(3,4,7) len ki
  have c0: "length (filter (\<lambda>r. nameKey E r = nm @ ext) (take i ?rs)) = 0"
    and c1: "length (filter (\<lambda>r. nameKey E r = nm @ ext) (take j ?rs)) = 1"
    by simp_all
  have 1: "displayName E cntp ?rs i = nm"
    using displayName_eq [OF assms(1), of cntp i] c0 ki assms(5) by simp
  have 2: "displayName E cntp ?rs j = nm @ ''-1''"
    using displayName_eq [OF assms(1), of cntp j] c1 kj assms(6) by (simp add: Itoa_small)
  have mem: "ps ! i \<in> set ps" "ps ! j \<in> set ps" using assms(3,4) by simp_all
  have 34: "md5hex E (ps ! i) \<noteq> md5hex E (ps ! j) \<and>
            (\<exists>v w. ?M (md5hex E (ps ! i)) = Some v \<and> ?M (md5hex E (ps ! j)) = Some w \<and>
                   RContent v = ps ! i \<and> RContent w = ps ! j)"
    if inj: "inj_on (md5hex E) (set ps)"
  proof -
  have 3: "md5hex E (ps ! i) \<noteq> md5hex E (ps ! j)"
    using mem assms(8) inj by (auto dest: inj_onD)
  have entry: "\<exists>v. ?M (md5hex E (ps ! n)) = Some v \<and> RContent v = ps ! n" if "n < length ps" for n
  proof -
    from last_writer [OF assms(1), of n cntp 0 ?s0] that len
    obtain l where l: "l < length ?rs" "md5hex E (ps ! l) = md5hex E (ps ! n)"
      "?M (md5hex E (ps ! n)) = Some (mkResource E cntp (0 + l) (?rs ! l) (ps ! l))"
      unfolding mapResources_media by auto
    have "ps ! l \<in> set ps" "ps ! n \<in> set ps" using l(1) that len by simp_all
    with inj l(2) have "ps ! l = ps ! n" by (auto dest: inj_onD)
    with l(3) show ?thesis by (simp add: mkResource_def)
  qed
  from entry [of i] entry [of j] assms(3,4)
  have 4: "\<exists>v w. ?M (md5hex E (ps ! i)) = Some v \<and> ?M (md5hex E (ps ! j)) = Some w \<and>
                RContent v = ps ! i \<and> RContent w = ps ! j" by auto
  show ?thesis using 3 4 by blast
  qed
  show ?thesis using 1 2 34 by blast
qed

theorem same_name_different_content_witness:
  "payloads exampleEnv (Resources (enote (withResources [resA, resC] exampleRun))) =
     Some [''AAAA'', ''BBBB''] \<and>
   name exampleEnv resA = name exampleEnv resC \<and>
   displayName exampleEnv 7 [resA, resC] 0 = ''pic'' \<and>
   displayName exampleEnv 7 [resA, resC] 1 = ''pic-1''"
proof -
  let ?s = "withResources [resA, resC] exampleRun"
  have p: "payloads exampleEnv (Resources (enote ?s)) = Some [''AAAA'', ''BBBB'']"
    by (simp only: example_resources example_payloads)
  have m: "Media (md ?s) = Map.empty" by (simp add: example_resources)
  have i: "inj_on (md5hex exampleEnv) (set [''AAAA'', ''BBBB''])"
    by (simp add: example_names)
  have n0: "name exampleEnv (Resources (enote ?s) ! 0) = (''pic'', ''.png'')"
    and n1: "name exampleEnv (Resources (enote ?s) ! 1) = (''pic'', ''.png'')"
    by (simp_all add: example_resources example_names)
  have f: "\<forall>l<1. l \<noteq> 0 \<longrightarrow> nameKey exampleEnv (Resources (enote ?s) ! l) \<noteq> ''pic'' @ ''.png''"
    by simp
  from same_name_different_content [OF p m _ _ n0 n1 f, of 7]
  have "displayName exampleEnv 7 (Resources (enote ?s)) 0 = ''pic'' \<and>
        displayName exampleEnv 7 (Resources (enote ?s)) 1 = ''pic'' @ ''-1''"
    by simp
  then show ?thesis using p by (simp add: example_resources example_names)
qed

section \<open>The stages under a sticky error\<close>

text \<open>Six stages start with the guard on \<^verbatim>\<open>c.err\<close> and return the state as it is when the
  converter holds an error; no stage changes the configuration fields of the converter.\<close>

lemma guarded_skip:
  assumes "err (conv s) = Some e"
  shows "normalizeHTML E s = s" and "toMarkdown E s = s" and "prependTags E s = s"
    and "prependTitle s = s" and "trimSpaces s = s" and "addDates E s = s"
  using assms
  by (simp_all add: normalizeHTML_def toMarkdown_def prependTags_def prependTitle_def
      trimSpaces_def addDates_def)

lemma after_mapResources_skip:
  assumes "err (conv s) = Some e"
  shows "addDates E (trimSpaces (prependTitle (prependTags E (toMarkdown E (normalizeHTML E s))))) = s"
  using assms by (simp add: guarded_skip)

lemma mapResources_empty:
  assumes "Resources (enote s) = []"
  shows "mapResources E cnt s = s"
  using assms by (simp add: mapResources_def mapInit_def)

lemma conv_setErr: "conv (setErr x s) = (conv s)\<lparr>err := x\<rparr>"
  by (simp add: setErr_def)

lemma conv_setContent: "conv (setContent b s) = conv s"
  by (simp add: setContent_def)

lemma stage_flags:
  "EnableFrontMatter (conv (mapResources E cnt s)) = EnableFrontMatter (conv s)"
  "FrontMatterTemplate (conv (mapResources E cnt s)) = FrontMatterTemplate (conv s)"
  "EnableFrontMatter (conv (normalizeHTML E s)) = EnableFrontMatter (conv s)"
  "FrontMatterTemplate (conv (normalizeHTML E s)) = FrontMatterTemplate (conv s)"
  "EnableFrontMatter (conv (toMarkdown E s)) = EnableFrontMatter (conv s)"
  "FrontMatterTemplate (conv (toMarkdown E s)) = FrontMatterTemplate (conv s)"
  "EnableFrontMatter (conv (prependTags E s)) = EnableFrontMatter (conv s)"
  "FrontMatterTemplate (conv (prependTags E s)) = FrontMatterTemplate (conv s)"
  "EnableFrontMatter (conv (prependTitle s)) = EnableFrontMatter (conv s)"
  "FrontMatterTemplate (conv (prependTitle s)) = FrontMatterTemplate (conv s)"
  "EnableFrontMatter (conv (trimSpaces s)) = EnableFrontMatter (conv s)"
  "FrontMatterTemplate (conv (trimSpaces s)) = FrontMatterTemplate (conv s)"
  "EnableFrontMatter (conv (addDates E s)) = EnableFrontMatter (conv s)"
  "FrontMatterTemplate (conv (addDates E s)) = FrontMatterTemplate (conv s)"
  by (simp_all add: mapResources_def normalizeHTML_def toMarkdown_def prependTags_def
      prependTitle_def trimSpaces_def addDates_def conv_setErr conv_setContent Let_def
      split: sum.splits prod.splits)

lemma stages_flags:
  "EnableFrontMatter (conv (stages E cnt s)) = EnableFrontMatter (conv s)"
  "FrontMatterTemplate (conv (stages E cnt s)) = FrontMatterTemplate (conv s)"
  by (simp_all add: stages_def stage_flags)

lemma Convert_panic_iff:
  "Convert E c n cnt w = Inl (Panic e) \<longleftrightarrow>
     EnableFrontMatter c \<and>
     (tmplParse E (FrontMatterTemplate c) = Inl e \<or>
      (\<exists>t. tmplParse E (FrontMatterTemplate c) = Inr t \<and>
           tmplExecute E t
             (frontMatterData E (stages E cnt (startRun c n w)))
             = Inl e))"
  using stages_flags [of E cnt "startRun c n w"]
  by (auto simp: Convert_def Let_def addFrontMatter_def startRun_def split: sum.splits)

lemma later_stages_conv:
  "conv (prependTags E s) = conv s" "conv (prependTitle s) = conv s"
  "conv (trimSpaces s) = conv s" "conv (addDates E s) = conv s"
  by (simp_all add: prependTags_def prependTitle_def trimSpaces_def addDates_def
      conv_setContent Let_def split: prod.splits)

lemma stages_conv:
  "conv (stages E cnt s) = conv (toMarkdown E (normalizeHTML E (mapResources E cnt s)))"
  by (simp add: stages_def later_stages_conv)

lemma withDates_commute:
  "mapResources E cnt (withDates a b s) = withDates a b (mapResources E cnt s)"
  "normalizeHTML E (withDates a b s) = withDates a b (normalizeHTML E s)"
  "toMarkdown E (withDates a b s) = withDates a b (toMarkdown E s)"
proof -
  show "mapResources E cnt (withDates a b s) = withDates a b (mapResources E cnt s)"
    by (simp add: mapResources_def withDates_def Let_def)
  show "normalizeHTML E (withDates a b s) = withDates a b (normalizeHTML E s)"
    by (simp add: normalizeHTML_def withDates_def)
  show "toMarkdown E (withDates a b s) = withDates a b (toMarkdown E s)"
    by (simp add: toMarkdown_def withDates_def setErr_def setContent_def split: sum.splits)
qed

lemma dates_irrelevant:
  "err (conv (stages E cnt (withDates a b s))) = err (conv (stages E cnt s))"
  by (simp add: stages_conv withDates_commute) (simp add: withDates_def)

lemma example_env_fields:
  "timeParse exampleEnv l v = (if length v = 16 then Inr 1 else Inl (Error ''cannot parse''))"
  "clock exampleEnv k = 1000 + int k"
  "tmplParse exampleEnv t = (if t = ''{{'' then Inl (Error ''unclosed action'') else Inr t)"
  "tmplExecute exampleEnv t d = Inr (''title: '' @ fmTitle d @ [NL])"
  "markdownConvert exampleEnv h hl esc =
     (if h = ''<table>'' then Inl (Error ''unbalanced table'') else Inr h)"
  "rewriteHTML exampleEnv m h = h"
  "tagHeader exampleEnv c n = []"
  "decoder exampleEnv x =
     (if x = ''!'' then Inl (Error ''illegal base64 data at input byte 0'') else Inr x)"
  by (simp_all add: exampleEnv_def)

text \<open>Two runs in the example environment: an attachment that does not decode ends the
  loop with the error and an empty index; the example note converts to a heading, a
  blank line and the body.\<close>

lemma example_bad_first:
  "err (conv (mapResources exampleEnv 7 (withResources [resBad, resA] exampleRun))) =
     Some (Error ''illegal base64 data at input byte 0'') \<and>
   Media (md (mapResources exampleEnv 7 (withResources [resBad, resA] exampleRun))) = Map.empty"
  by (simp add: mapResources_def mapInit_def example_resources example_env_fields resBad_def)

lemma example_convert:
  "(case Convert exampleEnv exampleConverter exampleNote 7 exampleWorld of
      Inl p \<Rightarrow> False
    | Inr s \<Rightarrow> MdContent (md s) = ''# Hello'' @ [NL, NL] @ ''World'' @ [NL] \<and>
               err (conv s) = None \<and> CTime (md s) = 1 \<and> MTime (md s) = 1)"
  by code_simp

section \<open>Dates\<close>

lemma convertEvernoteDate_fail:
  assumes "timeParse E evernoteDateFormat d = Inl (Error msg)"
  shows "convertEvernoteDate E d w =
           (clock E (ticks w),
            \<lparr>ticks = Suc (ticks w),
             logged = logged w @ [''[DEBUG] Could not convert time /'' @ d @ '': '' @ msg @
                                  '', using today instead'']\<rparr>)"
  using assms by (simp add: convertEvernoteDate_def)

lemma convertEvernoteDate_world:
  "ticks w \<le> ticks (snd (convertEvernoteDate E d w)) \<and>
   ticks (snd (convertEvernoteDate E d w)) \<le> Suc (ticks w) \<and>
   set (logged w) \<subseteq> set (logged (snd (convertEvernoteDate E d w)))"
  by (auto simp: convertEvernoteDate_def split: sum.splits error.splits)

text \<open>
  Claim C6. When the date stage runs (the converter holds no error) and the created
  string does not parse in the layout \<open>20060102T150405Z\<close>, the created instant is the
  reading of the clock and the diagnostic line is in the log; the same holds for the
  updated string, whose reading is taken during the stage. The stage leaves the
  converter without error and the content as it was, and the error a conversion returns
  does not depend on the two date strings of the note.
\<close>

theorem addDates_lenient:
  assumes "err (conv s) = None"
  shows "(\<forall>msg. timeParse E evernoteDateFormat (Created (enote s)) = Inl (Error msg) \<longrightarrow>
            CTime (md (addDates E s)) = clock E (ticks (wld s)) \<and>
            ''[DEBUG] Could not convert time /'' @ Created (enote s) @ '': '' @ msg @
              '', using today instead'' \<in> set (logged (wld (addDates E s)))) \<and>
         (\<forall>msg. timeParse E evernoteDateFormat (Updated (enote s)) = Inl (Error msg) \<longrightarrow>
            (\<exists>k. MTime (md (addDates E s)) = clock E k \<and> ticks (wld s) \<le> k \<and>
                 k < ticks (wld (addDates E s))) \<and>
            ''[DEBUG] Could not convert time /'' @ Updated (enote s) @ '': '' @ msg @
              '', using today instead'' \<in> set (logged (wld (addDates E s)))) \<and>
         err (conv (addDates E s)) = None \<and>
         MdContent (md (addDates E s)) = MdContent (md s) \<and>
         (\<forall>cnt a b. err (conv (stages E cnt (withDates a b s))) = err (conv (stages E cnt s)))"
proof -
  obtain ct w1 where c1: "convertEvernoteDate E (Created (enote s)) (wld s) = (ct, w1)"
    by (cases "convertEvernoteDate E (Created (enote s)) (wld s)")
  obtain mt w2 where c2: "convertEvernoteDate E (Updated (enote s)) w1 = (mt, w2)"
    by (cases "convertEvernoteDate E (Updated (enote s)) w1")
  have r: "addDates E s = s\<lparr>md := (md s)\<lparr>CTime := ct, MTime := mt\<rparr>, wld := w2\<rparr>"
    using assms c1 c2 by (simp add: addDates_def)
  have m1: "ticks (wld s) \<le> ticks w1" "set (logged (wld s)) \<subseteq> set (logged w1)"
    using convertEvernoteDate_world [of "wld s" E "Created (enote s)"] c1 by simp_all
  have m2: "ticks w1 \<le> ticks w2" "set (logged w1) \<subseteq> set (logged w2)"
    using convertEvernoteDate_world [of w1 E "Updated (enote s)"] c2 by simp_all
  have A: "CTime (md (addDates E s)) = clock E (ticks (wld s)) \<and>
            ''[DEBUG] Could not convert time /'' @ Created (enote s) @ '': '' @ msg @
              '', using today instead'' \<in> set (logged (wld (addDates E s)))"
    if "timeParse E evernoteDateFormat (Created (enote s)) = Inl (Error msg)" for msg
  proof -
    from convertEvernoteDate_fail [OF that, of "wld s"] c1
    have "ct = clock E (ticks (wld s))"
      and "''[DEBUG] Could not convert time /'' @ Created (enote s) @ '': '' @ msg @
              '', using today instead'' \<in> set (logged w1)" by auto
    then show ?thesis using r m2 by auto
  qed
  have B: "(\<exists>k. MTime (md (addDates E s)) = clock E k \<and> ticks (wld s) \<le> k \<and>
                 k < ticks (wld (addDates E s))) \<and>
            ''[DEBUG] Could not convert time /'' @ Updated (enote s) @ '': '' @ msg @
              '', using today instead'' \<in> set (logged (wld (addDates E s)))"
    if "timeParse E evernoteDateFormat (Updated (enote s)) = Inl (Error msg)" for msg
  proof -
    from convertEvernoteDate_fail [OF that, of w1] c2
    have "mt = clock E (ticks w1)" "ticks w2 = Suc (ticks w1)"
      and "''[DEBUG] Could not convert time /'' @ Updated (enote s) @ '': '' @ msg @
              '', using today instead'' \<in> set (logged w2)" by auto
    then show ?thesis using r m1 by auto
  qed
  have C: "err (conv (addDates E s)) = None" using assms by (simp add: later_stages_conv)
  have D: "MdContent (md (addDates E s)) = MdContent (md s)" using r by simp
  show ?thesis using A B C D dates_irrelevant by blast
qed

theorem addDates_lenient_witness:
  "err (conv (withDates ''yesterday'' ''20180109T173725Z'' exampleRun)) = None \<and>
   timeParse exampleEnv evernoteDateFormat
     (Created (enote (withDates ''yesterday'' ''20180109T173725Z'' exampleRun))) =
       Inl (Error ''cannot parse'') \<and>
   CTime (md (addDates exampleEnv (withDates ''yesterday'' ''20180109T173725Z'' exampleRun))) = 1000 \<and>
   err (conv (addDates exampleEnv (withDates ''yesterday'' ''20180109T173725Z'' exampleRun))) = None"
proof -
  let ?s = "withDates ''yesterday'' ''20180109T173725Z'' exampleRun"
  have h: "err (conv ?s) = None"
    by (simp add: withDates_def exampleRun_def startRun_def exampleConverter_def)
  have c: "Created (enote ?s) = ''yesterday''" by (simp add: withDates_def)
  have p: "timeParse exampleEnv evernoteDateFormat (Created (enote ?s)) = Inl (Error ''cannot parse'')"
    by (simp add: c example_env_fields)
  have t: "ticks (wld ?s) = 0" by (simp add: withDates_def exampleRun_def startRun_def exampleWorld_def)
  from addDates_lenient [OF h, of exampleEnv] p
  have "CTime (md (addDates exampleEnv ?s)) = clock exampleEnv (ticks (wld ?s))"
    and "err (conv (addDates exampleEnv ?s)) = None" by blast+
  then show ?thesis using h p t by (simp add: example_env_fields)
qed

section \<open>Front matter after a failure\<close>

text \<open>In the example environment the renderer rejects the markup \<open><table>\<close>: the
  third stage sets the error and the later stages are skipped.\<close>

lemma example_table_fails:
  assumes "err c = None"
  shows "stages exampleEnv cnt (startRun c (exampleNote\<lparr>Content := ''<table>''\<rparr>) w) =
           setErr (Some (Error ''unbalanced table''))
             (startRun c (exampleNote\<lparr>Content := ''<table>''\<rparr>) w)"
proof -
  let ?s = "startRun c (exampleNote\<lparr>Content := ''<table>''\<rparr>) w"
  have r: "Resources (enote ?s) = []"
    by (simp add: startRun_def exampleNote_def)
  have 1: "mapResources exampleEnv cnt ?s = ?s"
    using r by (rule mapResources_empty)
  have e: "err (conv ?s) = None"
    using assms by (simp add: startRun_def)
  have 2: "normalizeHTML exampleEnv ?s = ?s"
    using e by (simp add: normalizeHTML_def example_env_fields)
  have c: "Content (enote ?s) = ''<table>''"
    by (simp add: startRun_def)
  have 3: "toMarkdown exampleEnv ?s = setErr (Some (Error ''unbalanced table'')) ?s"
    using e c by (simp add: toMarkdown_def example_env_fields)
  have 4: "err (conv (setErr (Some (Error ''unbalanced table'')) ?s)) =
             Some (Error ''unbalanced table'')"
    by (simp add: setErr_def)
  show ?thesis
    using 4 by (simp add: stages_def 1 2 3 guarded_skip)
qed

text \<open>
  Claim C1 at the front matter stage. \<^verbatim>\<open>addFrontMatter\<close> does not look at \<^verbatim>\<open>c.err\<close>: when an
  earlier stage has set the error, front matter is enabled and the template renders
  \<open>b\<close>, the conversion returns that error together with a content that starts with
  \<open>b\<close>. The six stages with a guard are skipped (\<open>guarded_skip\<close>).
\<close>

theorem front_matter_after_failure:
  assumes "EnableFrontMatter c"
    and "err (conv (stages E cnt (startRun c n w))) = Some e"
    and "tmplParse E (FrontMatterTemplate c) = Inr t"
    and "tmplExecute E t
           (frontMatterData E (stages E cnt (startRun c n w))) = Inr b"
  shows "\<exists>s'. Convert E c n cnt w = Inr s' \<and> err (conv s') = Some e \<and>
              MdContent (md s') =
                b @ MdContent (md (stages E cnt (startRun c n w)))"
proof -
  let ?s = "stages E cnt (startRun c n w)"
  have f: "EnableFrontMatter (conv ?s)" "FrontMatterTemplate (conv ?s) = FrontMatterTemplate c"
    using assms(1) by (simp_all add: stages_flags startRun_def)
  have "addFrontMatter E ?s = Inr (setContent (b @ MdContent (md ?s)) ?s)"
    using assms(3,4) f(2) by (simp add: addFrontMatter_def)
  then have "Convert E c n cnt w = Inr (setContent (b @ MdContent (md ?s)) ?s)"
    using f(1) by (simp add: Convert_def Let_def)
  then show ?thesis using assms(2) by (simp add: setContent_def)
qed

theorem front_matter_after_failure_witness:
  "\<exists>s'. Convert exampleEnv (exampleConverter\<lparr>EnableFrontMatter := True\<rparr>)
           (exampleNote\<lparr>Content := ''<table>''\<rparr>) 7 exampleWorld = Inr s' \<and>
        err (conv s') = Some (Error ''unbalanced table'') \<and>
        MdContent (md s') = ''title: Hello'' @ [NL]"
proof -
  let ?c = "exampleConverter\<lparr>EnableFrontMatter := True\<rparr>"
  let ?n = "exampleNote\<lparr>Content := ''<table>''\<rparr>"
  let ?s0 = "startRun ?c ?n exampleWorld"
  have st: "stages exampleEnv 7 ?s0 = setErr (Some (Error ''unbalanced table'')) ?s0"
    by (rule example_table_fails) (simp add: exampleConverter_def)
  have 1: "EnableFrontMatter ?c" by simp
  have 2: "err (conv (stages exampleEnv 7 ?s0)) = Some (Error ''unbalanced table'')"
    unfolding st by (simp add: setErr_def startRun_def)
  have 3: "tmplParse exampleEnv (FrontMatterTemplate ?c) = Inr ''---''"
    by (simp add: example_env_fields exampleConverter_def)
  have 4: "tmplExecute exampleEnv ''---'' (frontMatterData exampleEnv (stages exampleEnv 7 ?s0)) =
             Inr (''title: Hello'' @ [NL])"
    unfolding st
    by (simp add: example_env_fields frontMatterData_def setErr_def exampleNote_def startRun_def)
  have 5: "MdContent (md (stages exampleEnv 7 ?s0)) = []"
    unfolding st by (simp add: setErr_def newNote_def startRun_def)
  from front_matter_after_failure [OF 1 2 3 4] show ?thesis
    by (simp add: 5)
qed

section \<open>Construction\<close>

lemma example_counts:
  "Count [] tagToken = 0" "Count ''#{{tag}}'' tagToken = 1"
  "Count ''{{tag}} {{tag}}'' tagToken = 2" "Count ''tag'' tagToken = 0"
  by code_simp+

text \<open>The empty template contains the token zero times and is accepted, with the default
  template in its place.\<close>

theorem empty_template_accepted:
  "Count [] tagToken = 0 \<and>
   NewConverter ''#{{tag}}'' ''---'' [] False False False =
     Inr \<lparr>TagTemplate = ''#{{tag}}'', EnableHighlights = False, EscapeSpecialChars = False,
          EnableFrontMatter = False, FrontMatterTemplate = ''---'', err = None\<rparr>"
  by (simp add: NewConverter_def example_counts)

text \<open>
  Claim C7, amended. A template that is not empty is accepted when it contains the tag
  token exactly once, and rejected with the error otherwise; no converter exists then.
  The empty template stands for the default template, and it is the default template
  that is counted: the empty template is accepted when the default template contains the
  token exactly once.
\<close>

theorem NewConverter_validates:
  "(t \<noteq> [] \<longrightarrow>
      NewConverter D F t fm hl esc =
        (if Count t tagToken = 1
         then Inr \<lparr>TagTemplate = t, EnableHighlights = hl, EscapeSpecialChars = esc,
                   EnableFrontMatter = fm, FrontMatterTemplate = F, err = None\<rparr>
         else Inl (Error ''tag format should contain exactly one {{tag}} template variable''))) \<and>
   NewConverter D F [] fm hl esc =
     (if Count D tagToken = 1
      then Inr \<lparr>TagTemplate = D, EnableHighlights = hl, EscapeSpecialChars = esc,
                EnableFrontMatter = fm, FrontMatterTemplate = F, err = None\<rparr>
      else Inl (Error ''tag format should contain exactly one {{tag}} template variable''))"
  by (simp add: NewConverter_def)

theorem NewConverter_validates_witness:
  "''#{{tag}}'' \<noteq> [] \<and>
   NewConverter ''#{{tag}}'' ''---'' ''{{tag}} {{tag}}'' True False False =
     Inl (Error ''tag format should contain exactly one {{tag}} template variable'') \<and>
   NewConverter ''#{{tag}}'' ''---'' ''tag'' True False False =
     Inl (Error ''tag format should contain exactly one {{tag}} template variable'') \<and>
   NewConverter ''{{tag}}!'' ''---'' ''#{{tag}}'' True False False =
     Inr \<lparr>TagTemplate = ''#{{tag}}'', EnableHighlights = False, EscapeSpecialChars = False,
          EnableFrontMatter = True, FrontMatterTemplate = ''---'', err = None\<rparr>"
  using NewConverter_validates [of "''{{tag}} {{tag}}''" "''#{{tag}}''" "''---''" True False False]
    NewConverter_validates [of "''tag''" "''#{{tag}}''" "''---''" True False False]
    NewConverter_validates [of "''#{{tag}}''" "''{{tag}}!''" "''---''" True False False]
  by (simp add: example_counts)

section \<open>Template failures\<close>

text \<open>In the example environment the stages set no error on the example note.\<close>

lemma example_stages_ok:
  assumes "err c = None"
  shows "err (conv (stages exampleEnv cnt (startRun c exampleNote w))) = None"
proof -
  let ?s = "startRun c exampleNote w"
  have r: "Resources (enote ?s) = []"
    by (simp add: startRun_def exampleNote_def)
  have 1: "mapResources exampleEnv cnt ?s = ?s"
    using r by (rule mapResources_empty)
  have e: "err (conv ?s) = None"
    using assms by (simp add: startRun_def)
  have 2: "normalizeHTML exampleEnv ?s = ?s"
    using e by (simp add: normalizeHTML_def example_env_fields)
  have c: "Content (enote ?s) = ''World''"
    by (simp add: startRun_def exampleNote_def)
  have 3: "err (conv (toMarkdown exampleEnv ?s)) = None"
    using e c by (simp add: toMarkdown_def example_env_fields conv_setContent conv_setErr)
  show ?thesis
    by (simp add: stages_conv 1 2 3)
qed

text \<open>A template that does not parse: the seven stages set no error on the example note,
  and the conversion panics.\<close>

theorem broken_template_panics:
  "err (conv (stages exampleEnv 7
     (startRun (exampleConverter\<lparr>EnableFrontMatter := True, FrontMatterTemplate := ''{{''\<rparr>)
        exampleNote exampleWorld))) = None \<and>
   Convert exampleEnv (exampleConverter\<lparr>EnableFrontMatter := True, FrontMatterTemplate := ''{{''\<rparr>)
     exampleNote 7 exampleWorld = Inl (Panic (Error ''unclosed action''))"
proof -
  let ?c = "exampleConverter\<lparr>EnableFrontMatter := True, FrontMatterTemplate := ''{{''\<rparr>"
  have "err (conv (stages exampleEnv 7 (startRun ?c exampleNote exampleWorld))) = None"
    by (rule example_stages_ok) (simp add: exampleConverter_def)
  moreover have "Convert exampleEnv ?c exampleNote 7 exampleWorld =
      Inl (Panic (Error ''unclosed action''))"
    by (simp add: Convert_panic_iff example_env_fields)
  ultimately show ?thesis by simp
qed

text \<open>
  Claim C4, amended. With front matter enabled and no error set by the seven stages
  before it, a template that does not parse, or that parses and does not execute on the
  data of the note, makes \<^verbatim>\<open>Convert\<close> panic with the error of the template engine: the call
  returns no document and no error value.
\<close>

theorem template_failure_panics:
  assumes "EnableFrontMatter c"
    and "err (conv (stages E cnt (startRun c n w))) = None"
    and "tmplParse E (FrontMatterTemplate c) = Inl e \<or>
         (\<exists>t. tmplParse E (FrontMatterTemplate c) = Inr t \<and>
              tmplExecute E t (frontMatterData E (stages E cnt (startRun c n w))) = Inl e)"
  shows "Convert E c n cnt w = Inl (Panic e) \<and> (\<forall>s'. Convert E c n cnt w \<noteq> Inr s')"
proof -
  have "Convert E c n cnt w = Inl (Panic e)"
    using assms(1,3) Convert_panic_iff [of E c n cnt w e] by blast
  then show ?thesis by simp
qed

theorem template_failure_panics_witness:
  "EnableFrontMatter (exampleConverter\<lparr>EnableFrontMatter := True, FrontMatterTemplate := ''{{''\<rparr>) \<and>
   err (conv (stages exampleEnv 0
     (startRun (exampleConverter\<lparr>EnableFrontMatter := True, FrontMatterTemplate := ''{{''\<rparr>)
        exampleNote exampleWorld))) = None \<and>
   tmplParse exampleEnv
     (FrontMatterTemplate (exampleConverter\<lparr>EnableFrontMatter := True, FrontMatterTemplate := ''{{''\<rparr>))
     = Inl (Error ''unclosed action'') \<and>
   Convert exampleEnv (exampleConverter\<lparr>EnableFrontMatter := True, FrontMatterTemplate := ''{{''\<rparr>)
     exampleNote 0 exampleWorld = Inl (Panic (Error ''unclosed action''))"
proof -
  let ?c = "exampleConverter\<lparr>EnableFrontMatter := True, FrontMatterTemplate := ''{{''\<rparr>"
  have 1: "EnableFrontMatter ?c" by simp
  have 2: "err (conv (stages exampleEnv 0 (startRun ?c exampleNote exampleWorld))) = None"
    by (rule example_stages_ok) (simp add: exampleConverter_def)
  have 3: "tmplParse exampleEnv (FrontMatterTemplate ?c) = Inl (Error ''unclosed action'')"
    by (simp add: example_env_fields)
  from template_failure_panics [OF 1 2 disjI1 [OF 3]] show ?thesis using 1 2 3 by blast
qed

section \<open>A converter that holds an error from an earlier call\<close>

lemma Convert_stale:
  assumes "err c = Some e" and "Resources n = []"
  shows "stages E cnt (startRun c n w) = startRun c n w"
    and "Convert E c n cnt w =
           (if EnableFrontMatter c then addFrontMatter E (startRun c n w)
            else Inr (startRun c n w))"
proof -
  have e: "err (conv (startRun c n w)) = Some e" using assms(1) by (simp add: startRun_def)
  have r: "Resources (enote (startRun c n w)) = []" using assms(2) by (simp add: startRun_def)
  have m: "mapResources E cnt (startRun c n w) = startRun c n w"
    using r by (rule mapResources_empty)
  show s: "stages E cnt (startRun c n w) = startRun c n w"
    unfolding stages_def m using e by (rule after_mapResources_skip)
  show "Convert E c n cnt w =
           (if EnableFrontMatter c then addFrontMatter E (startRun c n w)
            else Inr (startRun c n w))"
    by (simp add: Convert_def s) (simp add: startRun_def)
qed

lemma addFrontMatter_conv: "addFrontMatter E s = Inr s' \<Longrightarrow> conv s' = conv s"
  by (auto simp: addFrontMatter_def conv_setContent split: sum.splits)

text \<open>
  Claim C10. Let a call of \<^verbatim>\<open>Convert\<close> have returned the error \<open>e\<close>, so that the converter
  it leaves holds \<open>e\<close>. In a later call on that converter for a note without attachments
  the seven stages leave the start state as it is; the call returns \<open>e\<close> whenever it
  returns, and it returns the start state when front matter is disabled. For a note with
  attachments the error after resource mapping is the first decoding error of that note,
  whatever the converter held: it is \<^verbatim>\<open>nil\<close> when all attachments decode, and it is
  \<^verbatim>\<open>nil\<close> after the first iteration when the first attachment decodes.
\<close>

theorem stale_error:
  assumes "Convert E c n1 cnt1 w1 = Inr s1" and "err (conv s1) = Some e"
  shows "(Resources n = [] \<longrightarrow>
            stages E cnt (startRun (conv s1) n w) = startRun (conv s1) n w \<and>
            (\<forall>s'. Convert E (conv s1) n cnt w = Inr s' \<longrightarrow> snd (returned s') = Some e) \<and>
            (\<not> EnableFrontMatter (conv s1) \<longrightarrow>
               Convert E (conv s1) n cnt w = Inr (startRun (conv s1) n w))) \<and>
         (Resources n \<noteq> [] \<longrightarrow>
            err (conv (mapResources E cnt (startRun (conv s1) n w))) =
              firstDecodeError E (Resources n)) \<and>
         (Resources n \<noteq> [] \<and> payloads E (Resources n) \<noteq> None \<longrightarrow>
            err (conv (mapResources E cnt (startRun (conv s1) n w))) = None) \<and>
         (\<forall>r rs p. Resources n = r # rs \<and> decoder E (Data r) = Inr p \<longrightarrow>
            msErr (mapLoop E cnt 0 [r] (mapInit (err (conv s1)) Map.empty)) = None)"
proof -
  let ?c = "conv s1"
  have A: "stages E cnt (startRun ?c n w) = startRun ?c n w \<and>
            (\<forall>s'. Convert E ?c n cnt w = Inr s' \<longrightarrow> snd (returned s') = Some e) \<and>
            (\<not> EnableFrontMatter ?c \<longrightarrow> Convert E ?c n cnt w = Inr (startRun ?c n w))"
    if r: "Resources n = []"
  proof -
    note cs = Convert_stale [OF assms(2) r, of E cnt w]
    have "snd (returned s') = Some e" if "Convert E ?c n cnt w = Inr s'" for s'
    proof (cases "EnableFrontMatter ?c")
      case True
      with that cs(2) have "addFrontMatter E (startRun ?c n w) = Inr s'" by simp
      then have "conv s' = ?c" by (simp add: addFrontMatter_conv startRun_def)
      then show ?thesis using assms(2) by (simp add: returned_def)
    next
      case False
      with that cs(2) have "s' = startRun ?c n w" by simp
      then show ?thesis using assms(2) by (simp add: returned_def startRun_def)
    qed
    then show ?thesis using cs by simp
  qed
  have B: "err (conv (mapResources E cnt (startRun ?c n w))) = firstDecodeError E (Resources n)"
    if "Resources n \<noteq> []"
    using that by (simp add: mapResources_err mapLoop_err startRun_def)
  have C: "err (conv (mapResources E cnt (startRun ?c n w))) = None"
    if "Resources n \<noteq> [] \<and> payloads E (Resources n) \<noteq> None"
    using that B firstDecodeError_payloads [of E "Resources n"] by simp
  have D: "msErr (mapLoop E cnt 0 [r] (mapInit (err (conv s1)) Map.empty)) = None"
    if "decoder E (Data r) = Inr p" for r p
    using that by (simp add: mapBody_err)
  show ?thesis using A B C D by blast
qed

theorem stale_error_witness:
  "Convert exampleEnv exampleConverter (exampleNote\<lparr>Content := ''<table>''\<rparr>) 7 exampleWorld =
     Inr (setErr (Some (Error ''unbalanced table''))
            (startRun exampleConverter (exampleNote\<lparr>Content := ''<table>''\<rparr>) exampleWorld)) \<and>
   Resources exampleNote = [] \<and>
   Convert exampleEnv (exampleConverter\<lparr>err := Some (Error ''unbalanced table'')\<rparr>)
     exampleNote 8 exampleWorld =
     Inr (startRun (exampleConverter\<lparr>err := Some (Error ''unbalanced table'')\<rparr>)
            exampleNote exampleWorld) \<and>
   err (conv (mapResources exampleEnv 8
          (startRun (exampleConverter\<lparr>err := Some (Error ''unbalanced table'')\<rparr>)
             (exampleNote\<lparr>Resources := [resA]\<rparr>) exampleWorld))) = None"
proof -
  let ?n1 = "exampleNote\<lparr>Content := ''<table>''\<rparr>"
  let ?s1 = "setErr (Some (Error ''unbalanced table'')) (startRun exampleConverter ?n1 exampleWorld)"
  let ?c = "exampleConverter\<lparr>err := Some (Error ''unbalanced table'')\<rparr>"
  have e0: "err exampleConverter = None" "\<not> EnableFrontMatter exampleConverter"
    by (simp_all add: exampleConverter_def)
  have st: "stages exampleEnv 7 (startRun exampleConverter ?n1 exampleWorld) = ?s1"
    using e0(1) by (rule example_table_fails)
  have 1: "Convert exampleEnv exampleConverter ?n1 7 exampleWorld = Inr ?s1"
    unfolding Convert_def st using e0(2) by (simp add: setErr_def startRun_def)
  have c: "conv ?s1 = ?c" by (simp add: setErr_def startRun_def)
  have 2: "err (conv ?s1) = Some (Error ''unbalanced table'')" by (simp add: c)
  have r: "Resources exampleNote = []" by (simp add: exampleNote_def)
  have f: "\<not> EnableFrontMatter ?c" using e0(2) by simp
  have p: "Resources (exampleNote\<lparr>Resources := [resA]\<rparr>) \<noteq> [] \<and>
           payloads exampleEnv (Resources (exampleNote\<lparr>Resources := [resA]\<rparr>)) \<noteq> None"
    by (simp add: example_env_fields resA_def)
  from stale_error [OF 1 2, of exampleNote 8 exampleWorld] r f
  have 3: "Convert exampleEnv ?c exampleNote 8 exampleWorld = Inr (startRun ?c exampleNote exampleWorld)"
    unfolding c by blast
  from stale_error [OF 1 2, of "exampleNote\<lparr>Resources := [resA]\<rparr>" 8 exampleWorld] p
  have 4: "err (conv (mapResources exampleEnv 8
             (startRun ?c (exampleNote\<lparr>Resources := [resA]\<rparr>) exampleWorld))) = None"
    unfolding c by blast
  show ?thesis using 1 r 3 4 by blast
qed

end
